theory Spec2Isabelle
  imports Main "HOL-Library.Word"
begin

unbundle bit_operations_syntax

section \<open>The schema: field descriptors and data types\<close>

text \<open>
  The data types of \<^verbatim>\<open>schemapb.DataType\<close> that \<^verbatim>\<open>row_parser.go\<close> names, and
  \<open>DataType_None\<close>, the zero value that a getter returns on a nil descriptor.
\<close>

datatype data_type =
    DataType_None
  | DataType_Bool
  | DataType_Int8
  | DataType_Int16
  | DataType_Int32
  | DataType_Int64
  | DataType_Float
  | DataType_Double
  | DataType_String
  | DataType_VarChar
  | DataType_Array
  | DataType_JSON
  | DataType_BinaryVector
  | DataType_FloatVector
  | DataType_Float16Vector

text \<open>
  A field descriptor (\<^verbatim>\<open>schemapb.FieldSchema\<close>). \<open>Dim\<close> is the dimensionality
  attribute of a vector field, \<open>None\<close> when it is unspecified or not an integer.
\<close>

record FieldSchema =
  FieldID :: int
  Name :: string
  IsPrimaryKey :: bool
  AutoID :: bool
  DataType :: data_type
  ElementType :: data_type
  IsDynamic :: bool
  Dim :: "int option"

record CollectionSchema =
  Fields :: "FieldSchema list"

text \<open>
  The getters of a descriptor are nil-safe in Go: on a nil pointer they return the zero
  value. A pointer that may be nil is a \<open>FieldSchema option\<close>.
\<close>

definition GetFieldID :: "FieldSchema option \<Rightarrow> int" where
  "GetFieldID f = (case f of None \<Rightarrow> 0 | Some x \<Rightarrow> FieldID x)"

definition GetName :: "FieldSchema option \<Rightarrow> string" where
  "GetName f = (case f of None \<Rightarrow> [] | Some x \<Rightarrow> Name x)"

definition GetAutoID :: "FieldSchema option \<Rightarrow> bool" where
  "GetAutoID f = (case f of None \<Rightarrow> False | Some x \<Rightarrow> AutoID x)"

definition GetDataType :: "FieldSchema option \<Rightarrow> data_type" where
  "GetDataType f = (case f of None \<Rightarrow> DataType_None | Some x \<Rightarrow> DataType x)"

definition GetElementType :: "FieldSchema option \<Rightarrow> data_type" where
  "GetElementType f = (case f of None \<Rightarrow> DataType_None | Some x \<Rightarrow> ElementType x)"

section \<open>Untyped input values and typed output values\<close>

text \<open>
  The input of the parser is a Go \<^verbatim>\<open>any\<close> as a JSON decoder that keeps numbers as
  text produces it: nil, \<^verbatim>\<open>bool\<close>, \<^verbatim>\<open>json.Number\<close> (a string), \<^verbatim>\<open>string\<close>,
  \<^verbatim>\<open>[]interface{}\<close> and \<^verbatim>\<open>map[string]interface{}\<close>. A Go map is a partial
  function; the order in which \<^verbatim>\<open>range\<close> visits it is not part of the map.
\<close>

datatype any =
    AnyNil
  | AnyBool bool
  | AnyNumber string
  | AnyString string
  | AnySlice "any list"
  | AnyMap "string \<Rightarrow> any option"

text \<open>What \<^verbatim>\<open>%T\<close> prints for a value: its dynamic type.\<close>

fun go_type :: "any \<Rightarrow> string" where
  "go_type AnyNil = ''<nil>''"
| "go_type (AnyBool b) = ''bool''"
| "go_type (AnyNumber s) = ''json.Number''"
| "go_type (AnyString s) = ''string''"
| "go_type (AnySlice xs) = ''[]interface {}''"
| "go_type (AnyMap m) = ''map[string]interface {}''"

type_synonym byte = "8 word"

text \<open>The conversion \<^verbatim>\<open>[]byte(s)\<close> of a string.\<close>

definition bytes_of :: "string \<Rightarrow> byte list" where
  "bytes_of s = map of_char s"

text \<open>
  \<^verbatim>\<open>schemapb.ScalarField\<close>, the typed array. A \<^verbatim>\<open>float32\<close> is its 32 bits, a
  \<^verbatim>\<open>float64\<close> its 64 bits.
\<close>

datatype ScalarField =
    BoolData "bool list"
  | IntData "32 word list"
  | LongData "64 word list"
  | FloatData "32 word list"
  | DoubleData "64 word list"
  | StringData "string list"

text \<open>The values that \<^verbatim>\<open>parseEntity\<close> returns, by their Go type.\<close>

datatype val =
    V_bool bool
  | V_int8 "8 word"
  | V_int16 "16 word"
  | V_int32 "32 word"
  | V_int64 "64 word"
  | V_float32 "32 word"
  | V_float64 "64 word"
  | V_bytes "byte list"
  | V_float32s "32 word list"
  | V_string string
  | V_ScalarField ScalarField

type_synonym Row = "int \<Rightarrow> val option"

section \<open>Errors\<close>

text \<open>The \<^verbatim>\<open>Err\<close> of a \<^verbatim>\<open>strconv.NumError\<close>.\<close>

datatype num_err = ErrSyntax | ErrRange | ErrBase int | ErrBitSize int

text \<open>
  One constructor for each place of the source that makes an error, holding the
  arguments of its message. \<open>NumError\<close> is \<^verbatim>\<open>strconv.NumError\<close> (function, input,
  cause); \<open>LibError\<close> is an error of \<^verbatim>\<open>strconv.ParseFloat\<close> or of
  \<^verbatim>\<open>encoding/json\<close>; \<open>SchemaError\<close> is an error of \<^verbatim>\<open>typeutil\<close>.
\<close>

datatype error =
    NumError string string num_err
  | LibError string
  | SchemaError string
  | ErrExpectedType data_type string string any
  | ErrExpectedDim int string data_type int
  | ErrExpectedElementType data_type string any
  | ErrInvalidFormat
  | ErrAutoGenerated string
  | ErrDynamicExplicit string
  | ErrNotDefined string
  | ErrMissed string
  | ErrUnsupportedDataType data_type
  | ErrUnsupportedArrayDataType data_type

section \<open>The integer parsers of strconv\<close>

text \<open>
  \<^verbatim>\<open>strconv.ParseUint\<close> and \<^verbatim>\<open>strconv.ParseInt\<close> of the Go standard library, which
  the parser calls with base 0. A Go string is a sequence of bytes, as a \<open>string\<close> is
  here. Both return a value and an error, as in Go: on a range error the value is the
  largest of the width.
\<close>

definition lower :: "char \<Rightarrow> int" where
  "lower c = (of_char c :: int) OR 32"

definition digit_of :: "char \<Rightarrow> int option" where
  "digit_of c =
     (if 48 \<le> (of_char c :: int) \<and> (of_char c :: int) \<le> 57 then Some ((of_char c :: int) - 48)
      else if 97 \<le> lower c \<and> lower c \<le> 122 then Some (lower c - 97 + 10)
      else None)"

text \<open>
  The loop over the digits: \<open>n\<close> is the \<^verbatim>\<open>uint64\<close> accumulated so far (its wrap-around
  is written out), \<open>us\<close> records that an underscore was seen.
\<close>

fun uint_loop ::
  "bool \<Rightarrow> int \<Rightarrow> int \<Rightarrow> int \<Rightarrow> string \<Rightarrow> int \<Rightarrow> bool \<Rightarrow> (int \<times> bool) \<times> num_err option" where
  "uint_loop base0 base cutoff maxVal [] n us = ((n, us), None)"
| "uint_loop base0 base cutoff maxVal (c # cs) n us =
     (if c = CHR ''_'' \<and> base0 then uint_loop base0 base cutoff maxVal cs n True
      else case digit_of c of
        None \<Rightarrow> ((0, us), Some ErrSyntax)
      | Some d \<Rightarrow>
          if d \<ge> base then ((0, us), Some ErrSyntax)
          else if n \<ge> cutoff then ((maxVal, us), Some ErrRange)
          else
            let n' = (n * base) mod 2 ^ 64;
                n1 = (n' + d) mod 2 ^ 64
            in if n1 < n' \<or> n1 > maxVal then ((maxVal, us), Some ErrRange)
               else uint_loop base0 base cutoff maxVal cs n1 us)"

text \<open>
  \<^verbatim>\<open>underscoreOK\<close>: underscores only between digits, or between a base prefix and a
  digit. \<open>saw\<close> is the last character class seen.
\<close>

fun underscore_loop :: "bool \<Rightarrow> char \<Rightarrow> string \<Rightarrow> bool" where
  "underscore_loop hex saw [] = (saw \<noteq> CHR ''_'')"
| "underscore_loop hex saw (c # cs) =
     (if (48 \<le> (of_char c :: int) \<and> (of_char c :: int) \<le> 57)
         \<or> (hex \<and> 97 \<le> lower c \<and> lower c \<le> 102)
      then underscore_loop hex (CHR ''0'') cs
      else if c = CHR ''_''
      then (if saw \<noteq> CHR ''0'' then False else underscore_loop hex (CHR ''_'') cs)
      else if saw = CHR ''_'' then False
      else underscore_loop hex (CHR ''!'') cs)"

definition underscoreOK :: "string \<Rightarrow> bool" where
  "underscoreOK s0 =
     (let s = (if length s0 \<ge> 1 \<and> (hd s0 = CHR ''-'' \<or> hd s0 = CHR ''+'') then tl s0 else s0)
      in if length s \<ge> 2 \<and> hd s = CHR ''0''
            \<and> (lower (s ! 1) = 98 \<or> lower (s ! 1) = 111 \<or> lower (s ! 1) = 120)
         then underscore_loop (lower (s ! 1) = 120) (CHR ''0'') (drop 2 s)
         else underscore_loop False (CHR ''^'') s)"

definition ParseUint :: "string \<Rightarrow> int \<Rightarrow> int \<Rightarrow> int \<times> error option" where
  "ParseUint s0 base bitSize =
     (if s0 = [] then (0, Some (NumError ''ParseUint'' s0 ErrSyntax))
      else if \<not> (2 \<le> base \<and> base \<le> 36) \<and> base \<noteq> 0
      then (0, Some (NumError ''ParseUint'' s0 (ErrBase base)))
      else
        let base0 = (base = 0);
            (b, s) =
              (if \<not> base0 then (base, s0)
               else if hd s0 = CHR ''0'' then
                 (if length s0 \<ge> 3 \<and> lower (s0 ! 1) = 98 then (2, drop 2 s0)
                  else if length s0 \<ge> 3 \<and> lower (s0 ! 1) = 111 then (8, drop 2 s0)
                  else if length s0 \<ge> 3 \<and> lower (s0 ! 1) = 120 then (16, drop 2 s0)
                  else (8, drop 1 s0))
               else (10, s0))
        in if bitSize < 0 \<or> bitSize > 64
           then (0, Some (NumError ''ParseUint'' s0 (ErrBitSize bitSize)))
           else
             let bits = (if bitSize = 0 then 64 else nat bitSize);
                 cutoff = (2 ^ 64 - 1) div b + 1;
                 maxVal = 2 ^ bits - 1
             in case uint_loop base0 b cutoff maxVal s 0 False of
                  ((n, us), Some e) \<Rightarrow> (n, Some (NumError ''ParseUint'' s0 e))
                | ((n, us), None) \<Rightarrow>
                    if us \<and> \<not> underscoreOK s0
                    then (0, Some (NumError ''ParseUint'' s0 ErrSyntax))
                    else (n, None))"

text \<open>
  \<^verbatim>\<open>ParseInt\<close> returns an \<^verbatim>\<open>int64\<close>; the result here is its value. An error of
  \<^verbatim>\<open>ParseUint\<close> other than a range error is returned with the function name changed;
  after a range error the value of \<^verbatim>\<open>ParseUint\<close> is compared with the cutoff.
\<close>

definition ParseInt :: "string \<Rightarrow> int \<Rightarrow> int \<Rightarrow> int \<times> error option" where
  "ParseInt s0 base bitSize =
     (if s0 = [] then (0, Some (NumError ''ParseInt'' s0 ErrSyntax))
      else
        let neg = (hd s0 = CHR ''-'');
            s = (if hd s0 = CHR ''+'' \<or> hd s0 = CHR ''-'' then tl s0 else s0)
        in case ParseUint s base bitSize of
             (un, Some (NumError f num ErrSyntax)) \<Rightarrow> (0, Some (NumError ''ParseInt'' s0 ErrSyntax))
           | (un, Some (NumError f num (ErrBase b))) \<Rightarrow> (0, Some (NumError ''ParseInt'' s0 (ErrBase b)))
           | (un, Some (NumError f num (ErrBitSize b))) \<Rightarrow>
               (0, Some (NumError ''ParseInt'' s0 (ErrBitSize b)))
           | (un, _) \<Rightarrow>
               let bits = (if bitSize = 0 then 64 else nat bitSize);
                   cutoff = 2 ^ (bits - 1)
               in if \<not> neg \<and> un \<ge> cutoff
                  then (cutoff - 1, Some (NumError ''ParseInt'' s0 ErrRange))
                  else if neg \<and> un > cutoff
                  then (- cutoff, Some (NumError ''ParseInt'' s0 ErrRange))
                  else (if neg then - un else un, None))"

section \<open>Library functions outside the repository\<close>

text \<open>
  \<^verbatim>\<open>strconv.ParseFloat\<close>, the conversion \<^verbatim>\<open>float32(x)\<close>, \<^verbatim>\<open>json.Unmarshal\<close> (only
  its error is used), and the bytes and the error value of \<^verbatim>\<open>json.Marshal\<close> of a map,
  are parameters of the model: every theorem below holds for all of them.
\<close>

record stdlib =
  ParseFloat :: "string \<Rightarrow> int \<Rightarrow> error + 64 word"
  float32 :: "64 word \<Rightarrow> 32 word"
  Unmarshal :: "byte list \<Rightarrow> error option"
  MarshalBytes :: "(string \<Rightarrow> any option) \<Rightarrow> byte list"
  MarshalError :: "(string \<Rightarrow> any option) \<Rightarrow> error"

text \<open>
  When \<^verbatim>\<open>json.Marshal\<close> fails is not a parameter. Among the values of type \<open>any\<close>
  the encoder of \<^verbatim>\<open>encoding/json\<close> refuses one thing only: a \<^verbatim>\<open>json.Number\<close> that is
  neither empty (it is written \<open>0\<close>) nor a number of the JSON grammar, which
  \<^verbatim>\<open>isValidNumber\<close> decides: an optional minus sign, \<open>0\<close> or a digit from 1 to 9 and
  more digits, an optional fraction, an optional exponent, and nothing after.
\<close>

definition is_digit :: "char \<Rightarrow> bool" where
  "is_digit c = (48 \<le> (of_char c :: int) \<and> (of_char c :: int) \<le> 57)"

definition isValidNumber :: "string \<Rightarrow> bool" where
  "isValidNumber s0 =
     (if s0 = [] then False
      else
        let s1 = (if hd s0 = CHR ''-'' then tl s0 else s0)
        in if s1 = [] then False
           else if \<not> is_digit (hd s1) then False
           else
             let s2 = (if hd s1 = CHR ''0'' then tl s1 else dropWhile is_digit (tl s1));
                 s3 = (if length s2 \<ge> 2 \<and> hd s2 = CHR ''.'' \<and> is_digit (s2 ! 1)
                       then dropWhile is_digit (drop 2 s2) else s2)
             in if length s3 \<ge> 2 \<and> (hd s3 = CHR ''e'' \<or> hd s3 = CHR ''E'') then
                  let s4 = tl s3
                  in if hd s4 = CHR ''+'' \<or> hd s4 = CHR ''-'' then
                       (if tl s4 = [] then False else dropWhile is_digit (tl s4) = [])
                     else dropWhile is_digit s4 = []
                else s3 = [])"

text \<open>
  A value that the encoder accepts: every number in it, at any depth, is empty or valid.
\<close>

primrec marshal_ok :: "any \<Rightarrow> bool" where
  "marshal_ok AnyNil = True"
| "marshal_ok (AnyBool b) = True"
| "marshal_ok (AnyNumber s) = (s = [] \<or> isValidNumber s)"
| "marshal_ok (AnyString s) = True"
| "marshal_ok (AnySlice xs) = list_all id (map marshal_ok xs)"
| "marshal_ok (AnyMap m) = (\<forall>k. map_option marshal_ok (m k) \<noteq> Some False)"

definition Marshal :: "stdlib \<Rightarrow> (string \<Rightarrow> any option) \<Rightarrow> error + byte list" where
  "Marshal L mp =
     (if marshal_ok (AnyMap mp) then Inr (MarshalBytes L mp) else Inl (MarshalError L mp))"

text \<open>
  \<^verbatim>\<open>lo.KeyBy\<close> and \<^verbatim>\<open>lo.SliceToMap\<close>: one pass over the slice, each element stored
  under its key, so that a later element replaces an earlier one with the same key.
\<close>

definition KeyBy :: "'v list \<Rightarrow> ('v \<Rightarrow> 'k) \<Rightarrow> ('k \<Rightarrow> 'v option)" where
  "KeyBy collection iteratee = foldl (\<lambda>result v. result(iteratee v \<mapsto> v)) Map.empty collection"

definition SliceToMap :: "'t list \<Rightarrow> ('t \<Rightarrow> 'k \<times> 'v) \<Rightarrow> ('k \<Rightarrow> 'v option)" where
  "SliceToMap collection transform =
     foldl (\<lambda>result t. result(fst (transform t) \<mapsto> snd (transform t))) Map.empty collection"

text \<open>
  Modelled from the spec: the helpers of \<^verbatim>\<open>pkg/util/typeutil\<close> are not among the
  sources. The spec says of them: a vector-typed field is located and its dimensionality
  derived, failing when no vector field exists or the dimensionality is unspecified or
  invalid; the primary-key field is located, failing when absent; the dynamic field is
  optional. Each is the first field of the schema with the property.
\<close>

definition IsVectorType :: "data_type \<Rightarrow> bool" where
  "IsVectorType t =
     (t = DataType_BinaryVector \<or> t = DataType_FloatVector \<or> t = DataType_Float16Vector)"

definition GetVectorFieldSchema :: "CollectionSchema \<Rightarrow> error + FieldSchema" where
  "GetVectorFieldSchema schema =
     (case find (\<lambda>f. IsVectorType (DataType f)) (Fields schema) of
        None \<Rightarrow> Inl (SchemaError ''vector field is not found'')
      | Some f \<Rightarrow> Inr f)"

definition GetDim :: "FieldSchema \<Rightarrow> error + int" where
  "GetDim field =
     (case Dim field of
        None \<Rightarrow> Inl (SchemaError ''dim not found or invalid'')
      | Some d \<Rightarrow> Inr d)"

definition GetPrimaryFieldSchema :: "CollectionSchema \<Rightarrow> error + FieldSchema" where
  "GetPrimaryFieldSchema schema =
     (case find IsPrimaryKey (Fields schema) of
        None \<Rightarrow> Inl (SchemaError ''primary field is not found'')
      | Some f \<Rightarrow> Inr f)"

definition GetDynamicField :: "CollectionSchema \<Rightarrow> FieldSchema option" where
  "GetDynamicField schema = find IsDynamic (Fields schema)"

section \<open>The row parser\<close>

record rowParser =
  dim :: int
  id2Field :: "int \<Rightarrow> FieldSchema option"
  name2FieldID :: "string \<Rightarrow> int option"
  pkField :: "FieldSchema option"
  dynamicField :: "FieldSchema option"

definition NewRowParser :: "CollectionSchema \<Rightarrow> error + rowParser" where
  "NewRowParser schema =
     (let id2Field' = KeyBy (Fields schema) FieldID in
      case GetVectorFieldSchema schema of
        Inl err \<Rightarrow> Inl err
      | Inr vecField \<Rightarrow>
      (case GetDim vecField of
        Inl err \<Rightarrow> Inl err
      | Inr dim' \<Rightarrow>
      (case GetPrimaryFieldSchema schema of
        Inl err \<Rightarrow> Inl err
      | Inr pkField' \<Rightarrow>
          let name2FieldID0 = SliceToMap (Fields schema) (\<lambda>field. (Name field, FieldID field));
              name2FieldID1 =
                (if AutoID pkField' then name2FieldID0(Name pkField' := None) else name2FieldID0);
              dynamicField' = GetDynamicField schema;
              name2FieldID2 =
                (case dynamicField' of
                   Some d \<Rightarrow> name2FieldID1(Name d := None)
                 | None \<Rightarrow> name2FieldID1)
          in Inr \<lparr>dim = dim', id2Field = id2Field', name2FieldID = name2FieldID2,
                  pkField = Some pkField', dynamicField = dynamicField'\<rparr>)))"

definition wrapTypeError :: "rowParser \<Rightarrow> any \<Rightarrow> int \<Rightarrow> error" where
  "wrapTypeError r v fieldID =
     (let field = id2Field r fieldID
      in ErrExpectedType (GetDataType field) (GetName field) (go_type v) v)"

definition wrapDimError :: "rowParser \<Rightarrow> int \<Rightarrow> int \<Rightarrow> error" where
  "wrapDimError r actualDim fieldID =
     (let field = id2Field r fieldID
      in ErrExpectedDim (dim r) (GetName field) (GetDataType field) actualDim)"

definition wrapArrayValueTypeError :: "any \<Rightarrow> data_type \<Rightarrow> error" where
  "wrapArrayValueTypeError v eleType = ErrExpectedElementType eleType (go_type v) v"

subsection \<open>Array elements\<close>

text \<open>
  The loops of \<^verbatim>\<open>arrayToFieldData\<close>: \<open>arr\<close> is the whole array, the list after it
  the elements still to visit, \<open>values\<close> the slice appended to so far.
\<close>

fun bool_values :: "data_type \<Rightarrow> any list \<Rightarrow> any list \<Rightarrow> bool list \<Rightarrow> error + bool list" where
  "bool_values eleType arr [] values = Inr values"
| "bool_values eleType arr (x # xs) values =
     (case x of
        AnyBool v \<Rightarrow> bool_values eleType arr xs (values @ [v])
      | _ \<Rightarrow> Inl (wrapArrayValueTypeError (AnySlice arr) eleType))"

fun int32_values ::
  "data_type \<Rightarrow> any list \<Rightarrow> any list \<Rightarrow> 32 word list \<Rightarrow> error + 32 word list" where
  "int32_values eleType arr [] values = Inr values"
| "int32_values eleType arr (x # xs) values =
     (case x of
        AnyNumber v \<Rightarrow>
          (case ParseInt v 0 32 of
             (num, Some err) \<Rightarrow> Inl err
           | (num, None) \<Rightarrow> int32_values eleType arr xs (values @ [word_of_int num]))
      | _ \<Rightarrow> Inl (wrapArrayValueTypeError (AnySlice arr) eleType))"

fun int64_values ::
  "data_type \<Rightarrow> any list \<Rightarrow> any list \<Rightarrow> 64 word list \<Rightarrow> error + 64 word list" where
  "int64_values eleType arr [] values = Inr values"
| "int64_values eleType arr (x # xs) values =
     (case x of
        AnyNumber v \<Rightarrow>
          (case ParseInt v 0 64 of
             (num, Some err) \<Rightarrow> Inl err
           | (num, None) \<Rightarrow> int64_values eleType arr xs (values @ [word_of_int num]))
      | _ \<Rightarrow> Inl (wrapArrayValueTypeError (AnySlice arr) eleType))"

fun float32_values ::
  "stdlib \<Rightarrow> data_type \<Rightarrow> any list \<Rightarrow> any list \<Rightarrow> 32 word list \<Rightarrow> error + 32 word list" where
  "float32_values L eleType arr [] values = Inr values"
| "float32_values L eleType arr (x # xs) values =
     (case x of
        AnyNumber v \<Rightarrow>
          (case ParseFloat L v 32 of
             Inl err \<Rightarrow> Inl err
           | Inr num \<Rightarrow> float32_values L eleType arr xs (values @ [float32 L num]))
      | _ \<Rightarrow> Inl (wrapArrayValueTypeError (AnySlice arr) eleType))"

fun float64_values ::
  "stdlib \<Rightarrow> data_type \<Rightarrow> any list \<Rightarrow> any list \<Rightarrow> 64 word list \<Rightarrow> error + 64 word list" where
  "float64_values L eleType arr [] values = Inr values"
| "float64_values L eleType arr (x # xs) values =
     (case x of
        AnyNumber v \<Rightarrow>
          (case ParseFloat L v 64 of
             Inl err \<Rightarrow> Inl err
           | Inr num \<Rightarrow> float64_values L eleType arr xs (values @ [num]))
      | _ \<Rightarrow> Inl (wrapArrayValueTypeError (AnySlice arr) eleType))"

fun string_values ::
  "data_type \<Rightarrow> any list \<Rightarrow> any list \<Rightarrow> string list \<Rightarrow> error + string list" where
  "string_values eleType arr [] values = Inr values"
| "string_values eleType arr (x # xs) values =
     (case x of
        AnyString v \<Rightarrow> string_values eleType arr xs (values @ [v])
      | _ \<Rightarrow> Inl (wrapArrayValueTypeError (AnySlice arr) eleType))"

definition arrayToFieldData :: "stdlib \<Rightarrow> any list \<Rightarrow> data_type \<Rightarrow> error + ScalarField" where
  "arrayToFieldData L arr eleType =
     (if eleType = DataType_Bool then
        map_sum id BoolData (bool_values eleType arr arr [])
      else if eleType = DataType_Int8 \<or> eleType = DataType_Int16 \<or> eleType = DataType_Int32 then
        map_sum id IntData (int32_values eleType arr arr [])
      else if eleType = DataType_Int64 then
        map_sum id LongData (int64_values eleType arr arr [])
      else if eleType = DataType_Float then
        map_sum id FloatData (float32_values L eleType arr arr [])
      else if eleType = DataType_Double then
        map_sum id DoubleData (float64_values L eleType arr arr [])
      else if eleType = DataType_VarChar \<or> eleType = DataType_String then
        map_sum id StringData (string_values eleType arr arr [])
      else Inl (ErrUnsupportedArrayDataType eleType))"

subsection \<open>One value\<close>

text \<open>
  The loops of the vector cases of \<^verbatim>\<open>parseEntity\<close>: the elements still to visit and
  the part of \<open>vec\<close> filled so far.
\<close>

fun byte_vec :: "rowParser \<Rightarrow> int \<Rightarrow> any list \<Rightarrow> byte list \<Rightarrow> error + byte list" where
  "byte_vec r fieldID [] vec = Inr vec"
| "byte_vec r fieldID (x # xs) vec =
     (case x of
        AnyNumber v \<Rightarrow>
          (case ParseUint v 0 8 of
             (num, Some err) \<Rightarrow> Inl err
           | (num, None) \<Rightarrow> byte_vec r fieldID xs (vec @ [word_of_int num]))
      | _ \<Rightarrow> Inl (wrapTypeError r x fieldID))"

fun float_vec ::
  "stdlib \<Rightarrow> rowParser \<Rightarrow> int \<Rightarrow> any list \<Rightarrow> 32 word list \<Rightarrow> error + 32 word list" where
  "float_vec L r fieldID [] vec = Inr vec"
| "float_vec L r fieldID (x # xs) vec =
     (case x of
        AnyNumber v \<Rightarrow>
          (case ParseFloat L v 32 of
             Inl err \<Rightarrow> Inl err
           | Inr num \<Rightarrow> float_vec L r fieldID xs (vec @ [float32 L num]))
      | _ \<Rightarrow> Inl (wrapTypeError r x fieldID))"

text \<open>The integer cases: \<^verbatim>\<open>ParseInt\<close> at the declared width, then the conversion.\<close>

definition parse_int_field ::
  "rowParser \<Rightarrow> int \<Rightarrow> any \<Rightarrow> int \<Rightarrow> (int \<Rightarrow> val) \<Rightarrow> error + val" where
  "parse_int_field r fieldID obj bitSize conv =
     (case obj of
        AnyNumber v \<Rightarrow>
          (case ParseInt v 0 bitSize of
             (num, Some err) \<Rightarrow> Inl err
           | (num, None) \<Rightarrow> Inr (conv num))
      | _ \<Rightarrow> Inl (wrapTypeError r obj fieldID))"

definition parse_float_field ::
  "stdlib \<Rightarrow> rowParser \<Rightarrow> int \<Rightarrow> any \<Rightarrow> int \<Rightarrow> (64 word \<Rightarrow> val) \<Rightarrow> error + val" where
  "parse_float_field L r fieldID obj bitSize conv =
     (case obj of
        AnyNumber v \<Rightarrow>
          (case ParseFloat L v bitSize of
             Inl err \<Rightarrow> Inl err
           | Inr num \<Rightarrow> Inr (conv num))
      | _ \<Rightarrow> Inl (wrapTypeError r obj fieldID))"

definition parse_string_field :: "rowParser \<Rightarrow> int \<Rightarrow> any \<Rightarrow> error + val" where
  "parse_string_field r fieldID obj =
     (case obj of
        AnyString v \<Rightarrow> Inr (V_string v)
      | _ \<Rightarrow> Inl (wrapTypeError r obj fieldID))"

definition parseEntity :: "stdlib \<Rightarrow> rowParser \<Rightarrow> int \<Rightarrow> any \<Rightarrow> error + val" where
  "parseEntity L r fieldID obj =
     (case GetDataType (id2Field r fieldID) of
        DataType_Bool \<Rightarrow>
          (case obj of
             AnyBool b \<Rightarrow> Inr (V_bool b)
           | _ \<Rightarrow> Inl (wrapTypeError r obj fieldID))
      | DataType_Int8 \<Rightarrow> parse_int_field r fieldID obj 8 (\<lambda>num. V_int8 (word_of_int num))
      | DataType_Int16 \<Rightarrow> parse_int_field r fieldID obj 16 (\<lambda>num. V_int16 (word_of_int num))
      | DataType_Int32 \<Rightarrow> parse_int_field r fieldID obj 32 (\<lambda>num. V_int32 (word_of_int num))
      | DataType_Int64 \<Rightarrow> parse_int_field r fieldID obj 64 (\<lambda>num. V_int64 (word_of_int num))
      | DataType_Float \<Rightarrow> parse_float_field L r fieldID obj 32 (\<lambda>num. V_float32 (float32 L num))
      | DataType_Double \<Rightarrow> parse_float_field L r fieldID obj 64 V_float64
      | DataType_BinaryVector \<Rightarrow>
          (case obj of
             AnySlice arr \<Rightarrow>
               if int (length arr) * 8 \<noteq> dim r
               then Inl (wrapDimError r (int (length arr) * 8) fieldID)
               else map_sum id V_bytes (byte_vec r fieldID arr [])
           | _ \<Rightarrow> Inl (wrapTypeError r obj fieldID))
      | DataType_FloatVector \<Rightarrow>
          (case obj of
             AnySlice arr \<Rightarrow>
               if int (length arr) \<noteq> dim r
               then Inl (wrapDimError r (int (length arr)) fieldID)
               else map_sum id V_float32s (float_vec L r fieldID arr [])
           | _ \<Rightarrow> Inl (wrapTypeError r obj fieldID))
      | DataType_Float16Vector \<Rightarrow>
          (case obj of
             AnySlice arr \<Rightarrow>
               if int (length arr) div 2 \<noteq> dim r
               then Inl (wrapDimError r (int (length arr) div 2) fieldID)
               else map_sum id V_bytes (byte_vec r fieldID arr [])
           | _ \<Rightarrow> Inl (wrapTypeError r obj fieldID))
      | DataType_String \<Rightarrow> parse_string_field r fieldID obj
      | DataType_VarChar \<Rightarrow> parse_string_field r fieldID obj
      | DataType_JSON \<Rightarrow>
          (case obj of
             AnyString v \<Rightarrow>
               (case Unmarshal L (bytes_of v) of
                  Some err \<Rightarrow> Inl err
                | None \<Rightarrow> Inr (V_bytes (bytes_of v)))
           | AnyMap mp \<Rightarrow>
               (case Marshal L mp of
                  Inl err \<Rightarrow> Inl err
                | Inr bs \<Rightarrow> Inr (V_bytes bs))
           | _ \<Rightarrow> Inl (wrapTypeError r obj fieldID))
      | DataType_Array \<Rightarrow>
          (case obj of
             AnySlice arr \<Rightarrow>
               map_sum id V_ScalarField
                 (arrayToFieldData L arr (GetElementType (id2Field r fieldID)))
           | _ \<Rightarrow> Inl (wrapTypeError r obj fieldID))
      | DataType_None \<Rightarrow> Inl (ErrUnsupportedDataType (GetDataType (id2Field r fieldID))))"

subsection \<open>One record\<close>

text \<open>
  \<^verbatim>\<open>combineDynamicRow\<close> stores the dynamic field's value in the row, which it returns.
\<close>

definition combineDynamicRow ::
  "stdlib \<Rightarrow> rowParser \<Rightarrow> (string \<Rightarrow> any option) \<Rightarrow> Row \<Rightarrow> error + Row" where
  "combineDynamicRow L r dynamicValues row =
     (let dynamicFieldID = GetFieldID (dynamicField r)
      in if dynamicValues \<noteq> Map.empty then
           (case parseEntity L r dynamicFieldID (AnyMap dynamicValues) of
              Inl err \<Rightarrow> Inl err
            | Inr data \<Rightarrow> Inr (row(dynamicFieldID \<mapsto> data)))
         else Inr (row(dynamicFieldID \<mapsto> V_string ''{}'')))"

text \<open>
  The first loop of \<^verbatim>\<open>Parse\<close>, over the pairs of the record. Go fixes no order for
  \<^verbatim>\<open>range\<close> over a map: the order is the list of keys given, and a key that the map
  does not hold is not visited. The state is the row and the dynamic values.
\<close>

fun range_stringMap ::
  "stdlib \<Rightarrow> rowParser \<Rightarrow> (string \<Rightarrow> any option) \<Rightarrow> string list \<Rightarrow>
   Row \<times> (string \<Rightarrow> any option) \<Rightarrow> error + Row \<times> (string \<Rightarrow> any option)" where
  "range_stringMap L r stringMap [] st = Inr st"
| "range_stringMap L r stringMap (key # keys) (row, dynamicValues) =
     (case stringMap key of
        None \<Rightarrow> range_stringMap L r stringMap keys (row, dynamicValues)
      | Some v \<Rightarrow>
          (case name2FieldID r key of
             Some fieldID \<Rightarrow>
               (case parseEntity L r fieldID v of
                  Inl err \<Rightarrow> Inl err
                | Inr data \<Rightarrow>
                    range_stringMap L r stringMap keys (row(fieldID \<mapsto> data), dynamicValues))
           | None \<Rightarrow>
               if dynamicField r \<noteq> None then
                 if key = GetName (dynamicField r) then Inl (ErrDynamicExplicit key)
                 else range_stringMap L r stringMap keys (row, dynamicValues(key \<mapsto> v))
               else Inl (ErrNotDefined key)))"

text \<open>
  The second loop, over \<^verbatim>\<open>name2FieldID\<close> in the order given: the first field whose ID
  the row lacks is reported.
\<close>

fun range_name2FieldID :: "rowParser \<Rightarrow> Row \<Rightarrow> string list \<Rightarrow> error option" where
  "range_name2FieldID r row [] = None"
| "range_name2FieldID r row (fieldName # names) =
     (case name2FieldID r fieldName of
        None \<Rightarrow> range_name2FieldID r row names
      | Some fieldID \<Rightarrow>
          if row fieldID = None then Some (ErrMissed fieldName)
          else range_name2FieldID r row names)"

text \<open>
  \<^verbatim>\<open>Parse\<close>. \<open>keys\<close> is the order in which the record's keys are visited, \<open>names\<close>
  the order in which the names of \<^verbatim>\<open>name2FieldID\<close> are.
\<close>

definition Parse ::
  "stdlib \<Rightarrow> rowParser \<Rightarrow> string list \<Rightarrow> string list \<Rightarrow> any \<Rightarrow> error + Row" where
  "Parse L r keys names raw =
     (case raw of
        AnyMap stringMap \<Rightarrow>
          if stringMap (GetName (pkField r)) \<noteq> None \<and> GetAutoID (pkField r)
          then Inl (ErrAutoGenerated (GetName (pkField r)))
          else
            (case range_stringMap L r stringMap keys (Map.empty, Map.empty) of
               Inl err \<Rightarrow> Inl err
             | Inr (row, dynamicValues) \<Rightarrow>
                 (case range_name2FieldID r row names of
                    Some err \<Rightarrow> Inl err
                  | None \<Rightarrow>
                      if dynamicField r = None then Inr row
                      else combineDynamicRow L r dynamicValues row))
      | _ \<Rightarrow> Inl ErrInvalidFormat)"

text \<open>An order of visit of a Go map: each of its keys once.\<close>

definition visits :: "string list \<Rightarrow> (string \<Rightarrow> 'a option) \<Rightarrow> bool" where
  "visits keys m = (distinct keys \<and> set keys = dom m)"

section \<open>Notions used in the statements\<close>

text \<open>
  The names of the explicit fields of a schema with primary key \<open>pk\<close>: all declared
  names, but the primary key's when it is auto-generated, and the dynamic field's.
\<close>

definition explicit_names :: "CollectionSchema \<Rightarrow> FieldSchema \<Rightarrow> string set" where
  "explicit_names schema pk =
     Name ` set (Fields schema)
       - (if AutoID pk then {Name pk} else {})
       - (case GetDynamicField schema of None \<Rightarrow> {} | Some d \<Rightarrow> {Name d})"

text \<open>
  The error that the body of the first loop of \<^verbatim>\<open>Parse\<close> returns at a key, if any. It
  reads the record and the parser only, not the row built so far.
\<close>

definition key_error ::
  "stdlib \<Rightarrow> rowParser \<Rightarrow> (string \<Rightarrow> any option) \<Rightarrow> string \<Rightarrow> error option" where
  "key_error L r stringMap key =
     (case stringMap key of
        None \<Rightarrow> None
      | Some v \<Rightarrow>
          (case name2FieldID r key of
             Some fieldID \<Rightarrow>
               (case parseEntity L r fieldID v of Inl err \<Rightarrow> Some err | Inr data \<Rightarrow> None)
           | None \<Rightarrow>
               if dynamicField r \<noteq> None then
                 if key = GetName (dynamicField r) then Some (ErrDynamicExplicit key) else None
               else Some (ErrNotDefined key)))"

text \<open>
  The state of the loop after the body has run at a key without an error: the value is
  stored in the row under the field's ID, or the pair is put among the dynamic values.
\<close>

definition key_step ::
  "stdlib \<Rightarrow> rowParser \<Rightarrow> (string \<Rightarrow> any option) \<Rightarrow> string \<Rightarrow>
   Row \<times> (string \<Rightarrow> any option) \<Rightarrow> Row \<times> (string \<Rightarrow> any option)" where
  "key_step L r stringMap key st =
     (case stringMap key of
        None \<Rightarrow> st
      | Some v \<Rightarrow>
          (case name2FieldID r key of
             Some fieldID \<Rightarrow>
               (case parseEntity L r fieldID v of
                  Inl err \<Rightarrow> st
                | Inr data \<Rightarrow> ((fst st)(fieldID \<mapsto> data), snd st))
           | None \<Rightarrow> (fst st, (snd st)(key \<mapsto> v))))"

section \<open>Example schemas, parsers and library\<close>

definition id_field :: FieldSchema where
  "id_field = \<lparr>FieldID = 100, Name = ''id'', IsPrimaryKey = True, AutoID = False,
     DataType = DataType_Int64, ElementType = DataType_None, IsDynamic = False, Dim = None\<rparr>"

definition auto_id_field :: FieldSchema where
  "auto_id_field = \<lparr>FieldID = 100, Name = ''id'', IsPrimaryKey = True, AutoID = True,
     DataType = DataType_Int64, ElementType = DataType_None, IsDynamic = False, Dim = None\<rparr>"

definition vector_field :: FieldSchema where
  "vector_field = \<lparr>FieldID = 101, Name = ''vector'', IsPrimaryKey = False, AutoID = False,
     DataType = DataType_BinaryVector, ElementType = DataType_None, IsDynamic = False,
     Dim = Some 8\<rparr>"

definition half_field :: FieldSchema where
  "half_field = \<lparr>FieldID = 101, Name = ''vector'', IsPrimaryKey = False, AutoID = False,
     DataType = DataType_Float16Vector, ElementType = DataType_None, IsDynamic = False,
     Dim = Some 1\<rparr>"

definition meta_field :: FieldSchema where
  "meta_field = \<lparr>FieldID = 102, Name = ''$meta'', IsPrimaryKey = False, AutoID = False,
     DataType = DataType_JSON, ElementType = DataType_None, IsDynamic = True, Dim = None\<rparr>"

definition tiny_field :: FieldSchema where
  "tiny_field = \<lparr>FieldID = 103, Name = ''tiny'', IsPrimaryKey = False, AutoID = False,
     DataType = DataType_Int8, ElementType = DataType_None, IsDynamic = False, Dim = None\<rparr>"

definition small_field :: FieldSchema where
  "small_field = \<lparr>FieldID = 104, Name = ''small'', IsPrimaryKey = False, AutoID = False,
     DataType = DataType_Int16, ElementType = DataType_None, IsDynamic = False, Dim = None\<rparr>"

definition tiny2_field :: FieldSchema where
  "tiny2_field = \<lparr>FieldID = 103, Name = ''tiny2'', IsPrimaryKey = False, AutoID = False,
     DataType = DataType_Int8, ElementType = DataType_None, IsDynamic = False, Dim = None\<rparr>"

definition tinies_field :: FieldSchema where
  "tinies_field = \<lparr>FieldID = 105, Name = ''tinies'', IsPrimaryKey = False, AutoID = False,
     DataType = DataType_Array, ElementType = DataType_Int8, IsDynamic = False, Dim = None\<rparr>"

definition pkdyn_field :: FieldSchema where
  "pkdyn_field = \<lparr>FieldID = 100, Name = ''id'', IsPrimaryKey = True, AutoID = False,
     DataType = DataType_Int64, ElementType = DataType_None, IsDynamic = True, Dim = None\<rparr>"

definition plain_schema :: CollectionSchema where
  "plain_schema = \<lparr>Fields = [id_field, vector_field]\<rparr>"

definition meta_schema :: CollectionSchema where
  "meta_schema = \<lparr>Fields = [id_field, vector_field, meta_field]\<rparr>"

definition auto_schema :: CollectionSchema where
  "auto_schema = \<lparr>Fields = [auto_id_field, vector_field]\<rparr>"

definition half_schema :: CollectionSchema where
  "half_schema = \<lparr>Fields = [id_field, half_field]\<rparr>"

definition ints_schema :: CollectionSchema where
  "ints_schema = \<lparr>Fields = [id_field, vector_field, tiny_field, small_field, tinies_field]\<rparr>"

text \<open>
  Two schemas that \<open>NewRowParser\<close> accepts as well: one in which the fields \<open>tiny\<close> and
  \<open>tiny2\<close> share the ID 103, one whose primary key is also flagged as the dynamic field.
\<close>

definition dup_schema :: CollectionSchema where
  "dup_schema = \<lparr>Fields = [id_field, vector_field, tiny_field, tiny2_field]\<rparr>"

definition pkdyn_schema :: CollectionSchema where
  "pkdyn_schema = \<lparr>Fields = [pkdyn_field, vector_field]\<rparr>"

text \<open>
  Records: one with the extra key \<open>x\<close>, one with the declared keys only, one that names
  \<open>$meta\<close> itself, one with a string under \<open>id\<close> and the undeclared key \<open>zzz\<close>, one
  without \<open>vector\<close>, and one for the schema in which \<open>tiny\<close> and \<open>tiny2\<close> share an ID.
\<close>

definition record_x :: "string \<Rightarrow> any option" where
  "record_x = [''id'' \<mapsto> AnyNumber ''1'', ''vector'' \<mapsto> AnySlice [AnyNumber ''255''],
     ''x'' \<mapsto> AnyNumber ''8'']"

definition record_declared :: "string \<Rightarrow> any option" where
  "record_declared = [''id'' \<mapsto> AnyNumber ''1'', ''vector'' \<mapsto> AnySlice [AnyNumber ''255'']]"

definition record_meta :: "string \<Rightarrow> any option" where
  "record_meta = [''id'' \<mapsto> AnyNumber ''1'', ''vector'' \<mapsto> AnySlice [AnyNumber ''255''],
     ''$meta'' \<mapsto> AnyMap [''x'' \<mapsto> AnyNumber ''8'']]"

definition record_zzz :: "string \<Rightarrow> any option" where
  "record_zzz = [''id'' \<mapsto> AnyString ''abc'', ''zzz'' \<mapsto> AnyNumber ''1'']"



text \<open>The parsers that \<open>NewRowParser\<close> builds from these schemas.\<close>

definition plain_parser :: rowParser where
  "plain_parser = \<lparr>dim = 8, id2Field = [100 \<mapsto> id_field, 101 \<mapsto> vector_field],
     name2FieldID = [''id'' \<mapsto> 100, ''vector'' \<mapsto> 101],
     pkField = Some id_field, dynamicField = None\<rparr>"

definition meta_parser :: rowParser where
  "meta_parser = \<lparr>dim = 8,
     id2Field = [100 \<mapsto> id_field, 101 \<mapsto> vector_field, 102 \<mapsto> meta_field],
     name2FieldID = [''id'' \<mapsto> 100, ''vector'' \<mapsto> 101, ''$meta'' \<mapsto> 102](''$meta'' := None),
     pkField = Some id_field, dynamicField = Some meta_field\<rparr>"

definition auto_parser :: rowParser where
  "auto_parser = \<lparr>dim = 8, id2Field = [100 \<mapsto> auto_id_field, 101 \<mapsto> vector_field],
     name2FieldID = [''id'' \<mapsto> 100, ''vector'' \<mapsto> 101](''id'' := None),
     pkField = Some auto_id_field, dynamicField = None\<rparr>"

definition half_parser :: rowParser where
  "half_parser = \<lparr>dim = 1, id2Field = [100 \<mapsto> id_field, 101 \<mapsto> half_field],
     name2FieldID = [''id'' \<mapsto> 100, ''vector'' \<mapsto> 101],
     pkField = Some id_field, dynamicField = None\<rparr>"

definition ints_parser :: rowParser where
  "ints_parser = \<lparr>dim = 8,
     id2Field = [100 \<mapsto> id_field, 101 \<mapsto> vector_field, 103 \<mapsto> tiny_field,
       104 \<mapsto> small_field, 105 \<mapsto> tinies_field],
     name2FieldID = [''id'' \<mapsto> 100, ''vector'' \<mapsto> 101, ''tiny'' \<mapsto> 103, ''small'' \<mapsto> 104,
       ''tinies'' \<mapsto> 105],
     pkField = Some id_field, dynamicField = None\<rparr>"

definition dup_parser :: rowParser where
  "dup_parser = \<lparr>dim = 8,
     id2Field = [100 \<mapsto> id_field, 101 \<mapsto> vector_field, 103 \<mapsto> tiny2_field],
     name2FieldID = [''id'' \<mapsto> 100, ''vector'' \<mapsto> 101, ''tiny'' \<mapsto> 103, ''tiny2'' \<mapsto> 103],
     pkField = Some id_field, dynamicField = None\<rparr>"

definition pkdyn_parser :: rowParser where
  "pkdyn_parser = \<lparr>dim = 8, id2Field = [100 \<mapsto> pkdyn_field, 101 \<mapsto> vector_field],
     name2FieldID = [''id'' \<mapsto> 100, ''vector'' \<mapsto> 101](''id'' := None),
     pkField = Some pkdyn_field, dynamicField = Some pkdyn_field\<rparr>"

text \<open>
  An instance of the library parameters for the examples. On the inputs it lists it
  answers as the Go library does (\<open>1\<close> and \<open>0\<close> as floats; the JSON texts \<open>{}\<close> and
  \<open>{"a":1}\<close>; the bytes of the maps \<open>{"x":8}\<close> and \<open>{"a":1}\<close>); the examples use no
  other input of it but the text \<open>{bad json\<close>, which is not JSON. Its error of
  \<open>json.Marshal\<close> leaves out the literal that Go quotes.
\<close>

definition example_lib :: stdlib where
  \<open>example_lib = \<lparr>
     ParseFloat = (\<lambda>s bitSize.
       if s = ''1'' then Inr 0x3FF0000000000000
       else if s = ''0'' then Inr 0
       else Inl (LibError ''ParseFloat: literal outside the examples'')),
     float32 = (\<lambda>x. if x = 0x3FF0000000000000 then 0x3F800000 else 0),
     Unmarshal = (\<lambda>b.
       if b = bytes_of ''{}'' \<or> b = bytes_of ''{"a":1}'' then None
       else Some (LibError ''invalid character'')),
     MarshalBytes = (\<lambda>m.
       if dom m = {''x''} \<and> m ''x'' = Some (AnyNumber ''8'') then bytes_of ''{"x":8}''
       else if dom m = {''a''} \<and> m ''a'' = Some (AnyNumber ''1'') then bytes_of ''{"a":1}''
       else []),
     MarshalError = (\<lambda>m. LibError ''json: invalid number literal'')\<rparr>\<close>

section \<open>The maps of the schema index\<close>

lemma foldl_upd_map_of:
  "foldl (\<lambda>result t. result(fst (g t) \<mapsto> snd (g t))) m xs = m ++ map_of (rev (map g xs))"
proof (induction xs arbitrary: m)
  case Nil
  then show ?case by simp
next
  case (Cons x xs)
  let ?F = "\<lambda>result t. result(fst (g t) \<mapsto> snd (g t))"
  have step: "m(fst (g x) \<mapsto> snd (g x)) ++ map_of (rev (map g xs))
        = m ++ map_of (rev (map g (x # xs)))"
    by (cases "g x") (simp add: map_add_upd_left fun_eq_iff map_add_def split: option.splits)
  have "foldl ?F m (x # xs) = foldl ?F (m(fst (g x) \<mapsto> snd (g x))) xs"
    by (simp only: foldl_Cons)
  also have "\<dots> = m(fst (g x) \<mapsto> snd (g x)) ++ map_of (rev (map g xs))"
    by (rule Cons.IH)
  also note step
  finally show ?case .
qed

lemma SliceToMap_map_of: "SliceToMap xs g = map_of (rev (map g xs))"
  by (simp add: SliceToMap_def foldl_upd_map_of)

lemma KeyBy_map_of: "KeyBy xs h = map_of (rev (map (\<lambda>v. (h v, v)) xs))"
proof -
  have "KeyBy xs h = foldl (\<lambda>result t. result(fst (h t, t) \<mapsto> snd (h t, t))) Map.empty xs"
    by (simp add: KeyBy_def)
  also have "\<dots> = Map.empty ++ map_of (rev (map (\<lambda>v. (h v, v)) xs))"
    by (rule foldl_upd_map_of)
  finally show ?thesis by simp
qed

lemma dom_SliceToMap: "dom (SliceToMap xs g) = fst ` g ` set xs"
  by (simp add: SliceToMap_map_of dom_map_of_conv_image_fst image_image)

lemma SliceToMap_SomeD:
  assumes "SliceToMap xs g k = Some v"
  shows "\<exists>x\<in>set xs. g x = (k, v)"
proof -
  from assms have "(k, v) \<in> set (rev (map g xs))"
    by (simp only: SliceToMap_map_of map_of_SomeD)
  then show ?thesis by force
qed

lemma KeyBy_distinct:
  assumes "distinct (map h xs)" and "x \<in> set xs"
  shows "KeyBy xs h (h x) = Some x"
proof -
  have "distinct (map fst (rev (map (\<lambda>v. (h v, v)) xs)))"
    using assms(1) by (simp add: rev_map[symmetric] comp_def)
  moreover have "(h x, x) \<in> set (rev (map (\<lambda>v. (h v, v)) xs))"
    using assms(2) by auto
  ultimately show ?thesis
    unfolding KeyBy_map_of by (rule map_of_is_SomeI)
qed

text \<open>Both maps hold, under a key, the last element of the slice with that key.\<close>

lemma map_of_find:
  "map_of (map (\<lambda>f. (key f, val f)) ys) k = map_option val (find (\<lambda>f. key f = k) ys)"
  by (induction ys) auto

lemma find_SomeD: "find P xs = Some x \<Longrightarrow> P x \<and> x \<in> set xs"
  by (induction xs) (auto split: if_splits)

lemma SliceToMap_find:
  "SliceToMap xs (\<lambda>f. (key f, val f)) k = map_option val (find (\<lambda>f. key f = k) (rev xs))"
  by (simp add: SliceToMap_map_of rev_map map_of_find)

lemma KeyBy_find: "KeyBy xs h k = find (\<lambda>v. h v = k) (rev xs)"
proof -
  have "KeyBy xs h k = map_option (\<lambda>v. v) (find (\<lambda>v. h v = k) (rev xs))"
    by (simp add: KeyBy_map_of rev_map map_of_find)
  then show ?thesis
    by (cases "find (\<lambda>v. h v = k) (rev xs)") simp_all
qed

text \<open>What a successful construction returns.\<close>

lemma NewRowParser_Inr:
  assumes "NewRowParser schema = Inr r"
  obtains vec d pk where
    "GetVectorFieldSchema schema = Inr vec" "GetDim vec = Inr d"
    "GetPrimaryFieldSchema schema = Inr pk"
    "dim r = d" "id2Field r = KeyBy (Fields schema) FieldID"
    "pkField r = Some pk" "dynamicField r = GetDynamicField schema"
    "name2FieldID r = (\<lambda>n. if n \<in> explicit_names schema pk
        then SliceToMap (Fields schema) (\<lambda>field. (Name field, FieldID field)) n else None)"
proof -
  from assms obtain vec where vec: "GetVectorFieldSchema schema = Inr vec"
    by (cases "GetVectorFieldSchema schema") (simp_all add: NewRowParser_def)
  from assms vec obtain d where d: "GetDim vec = Inr d"
    by (cases "GetDim vec") (simp_all add: NewRowParser_def)
  from assms vec d obtain pk where pk: "GetPrimaryFieldSchema schema = Inr pk"
    by (cases "GetPrimaryFieldSchema schema") (simp_all add: NewRowParser_def)
  let ?m = "SliceToMap (Fields schema) (\<lambda>field. (Name field, FieldID field))"
  have r: "r = \<lparr>dim = d, id2Field = KeyBy (Fields schema) FieldID,
      name2FieldID = (case GetDynamicField schema of
                   Some dy \<Rightarrow> (if AutoID pk then ?m(Name pk := None) else ?m)(Name dy := None)
                 | None \<Rightarrow> (if AutoID pk then ?m(Name pk := None) else ?m)),
      pkField = Some pk, dynamicField = GetDynamicField schema\<rparr>"
    using assms vec d pk by (simp add: NewRowParser_def Let_def)
  have dom: "dom ?m = Name ` set (Fields schema)"
    by (simp add: dom_SliceToMap image_image)
  have "name2FieldID r = (\<lambda>n. if n \<in> explicit_names schema pk then ?m n else None)"
  proof
    fix n
    have "n \<notin> Name ` set (Fields schema) \<Longrightarrow> ?m n = None"
      using dom by blast
    then show "name2FieldID r n = (if n \<in> explicit_names schema pk then ?m n else None)"
      by (cases "GetDynamicField schema") (auto simp: r explicit_names_def)
  qed
  then show ?thesis
    using that vec d pk r by simp
qed

lemma name2FieldID_dom:
  assumes "NewRowParser schema = Inr r" and "GetPrimaryFieldSchema schema = Inr pk"
  shows "dom (name2FieldID r) = explicit_names schema pk"
proof -
  from assms(1) obtain pk' where pk': "GetPrimaryFieldSchema schema = Inr pk'"
    and n: "name2FieldID r = (\<lambda>n. if n \<in> explicit_names schema pk'
        then SliceToMap (Fields schema) (\<lambda>field. (Name field, FieldID field)) n else None)"
    by (rule NewRowParser_Inr)
  from pk' assms(2) have [simp]: "pk' = pk" by simp
  have "explicit_names schema pk
          \<subseteq> dom (SliceToMap (Fields schema) (\<lambda>field. (Name field, FieldID field)))"
    by (auto simp: dom_SliceToMap explicit_names_def image_image)
  then show ?thesis
    unfolding n by (auto simp: dom_def split: if_splits)
qed

lemma name2FieldID_SomeD:
  assumes "NewRowParser schema = Inr r" and "name2FieldID r n = Some i"
  shows "\<exists>f\<in>set (Fields schema). Name f = n \<and> FieldID f = i"
proof -
  from assms(1) obtain pk' where
    n: "name2FieldID r = (\<lambda>n. if n \<in> explicit_names schema pk'
        then SliceToMap (Fields schema) (\<lambda>field. (Name field, FieldID field)) n else None)"
    by (rule NewRowParser_Inr)
  from assms(2)
  have "SliceToMap (Fields schema) (\<lambda>field. (Name field, FieldID field)) n = Some i"
    unfolding n by (simp split: if_splits)
  then show ?thesis by (auto dest!: SliceToMap_SomeD)
qed

lemma name2FieldID_inj:
  assumes "NewRowParser schema = Inr r" and "distinct (map FieldID (Fields schema))"
    and "name2FieldID r n = Some i" and "name2FieldID r n' = Some i"
  shows "n = n'"
proof -
  from name2FieldID_SomeD[OF assms(1,3)]
  obtain f where f: "f \<in> set (Fields schema)" "Name f = n" "FieldID f = i"
    by blast
  from name2FieldID_SomeD[OF assms(1,4)]
  obtain f' where f': "f' \<in> set (Fields schema)" "Name f' = n'" "FieldID f' = i"
    by blast
  from assms(2) f f' have "f = f'"
    by (metis distinct_map inj_on_def)
  with f f' show ?thesis by simp
qed

text \<open>The example parsers are the ones built from the example schemas.\<close>

lemma NewRowParser_plain: "NewRowParser plain_schema = Inr plain_parser"
  by (simp add: NewRowParser_def GetVectorFieldSchema_def GetDim_def GetPrimaryFieldSchema_def
      GetDynamicField_def IsVectorType_def KeyBy_def SliceToMap_def plain_schema_def
      plain_parser_def id_field_def vector_field_def)

lemma NewRowParser_meta: "NewRowParser meta_schema = Inr meta_parser"
  by (simp add: NewRowParser_def GetVectorFieldSchema_def GetDim_def GetPrimaryFieldSchema_def
      GetDynamicField_def IsVectorType_def KeyBy_def SliceToMap_def meta_schema_def
      meta_parser_def id_field_def vector_field_def meta_field_def)

lemma NewRowParser_auto: "NewRowParser auto_schema = Inr auto_parser"
  by (simp add: NewRowParser_def GetVectorFieldSchema_def GetDim_def GetPrimaryFieldSchema_def
      GetDynamicField_def IsVectorType_def KeyBy_def SliceToMap_def auto_schema_def
      auto_parser_def auto_id_field_def vector_field_def)

lemma NewRowParser_half: "NewRowParser half_schema = Inr half_parser"
  by (simp add: NewRowParser_def GetVectorFieldSchema_def GetDim_def GetPrimaryFieldSchema_def
      GetDynamicField_def IsVectorType_def KeyBy_def SliceToMap_def half_schema_def
      half_parser_def id_field_def half_field_def)

lemma NewRowParser_ints: "NewRowParser ints_schema = Inr ints_parser"
  by (simp add: NewRowParser_def GetVectorFieldSchema_def GetDim_def GetPrimaryFieldSchema_def
      GetDynamicField_def IsVectorType_def KeyBy_def SliceToMap_def ints_schema_def
      ints_parser_def id_field_def vector_field_def tiny_field_def small_field_def
      tinies_field_def)

lemma NewRowParser_dup: "NewRowParser dup_schema = Inr dup_parser"
  by (simp add: NewRowParser_def GetVectorFieldSchema_def GetDim_def GetPrimaryFieldSchema_def
      GetDynamicField_def IsVectorType_def KeyBy_def SliceToMap_def dup_schema_def
      dup_parser_def id_field_def vector_field_def tiny_field_def tiny2_field_def)

lemma NewRowParser_pkdyn: "NewRowParser pkdyn_schema = Inr pkdyn_parser"
  by (simp add: NewRowParser_def GetVectorFieldSchema_def GetDim_def GetPrimaryFieldSchema_def
      GetDynamicField_def IsVectorType_def KeyBy_def SliceToMap_def pkdyn_schema_def
      pkdyn_parser_def pkdyn_field_def vector_field_def Let_def)

section \<open>Construction of the schema index\<close>

text \<open>
  C5, as the code has it. After a successful \<open>NewRowParser\<close>, the names of
  \<open>name2FieldID\<close> are exactly the declared names, minus the primary key's if and only
  if it is auto-generated, minus the dynamic field's if there is one. Each retained name
  maps to the ID of the last declared field bearing that name, and \<open>id2Field\<close> maps each
  ID to the last declared field bearing that ID; so every entry of \<open>name2FieldID\<close> is the
  name and the ID of a declared field, and \<open>id2Field\<close> holds a declared field under that
  ID. The primary key's name keeps its entry if and only if the primary key is not
  auto-generated and no dynamic field bears its name. When the declared names are
  distinct, every explicit field's name maps to that field's ID; when the declared IDs
  are distinct, \<open>id2Field\<close> maps every field's ID back to the field and \<open>name2FieldID\<close>
  is injective.
\<close>

theorem C5_schema_index_maps:
  assumes "NewRowParser schema = Inr r"
  shows "\<exists>pk. GetPrimaryFieldSchema schema = Inr pk \<and> pkField r = Some pk
      \<and> dom (name2FieldID r) = explicit_names schema pk
      \<and> (\<forall>n\<in>explicit_names schema pk.
            name2FieldID r n
              = map_option FieldID (find (\<lambda>f. Name f = n) (rev (Fields schema))))
      \<and> (\<forall>i. id2Field r i = find (\<lambda>f. FieldID f = i) (rev (Fields schema)))
      \<and> (\<forall>n i. name2FieldID r n = Some i \<longrightarrow>
            (\<exists>f\<in>set (Fields schema). Name f = n \<and> FieldID f = i)
            \<and> (\<exists>f'\<in>set (Fields schema). id2Field r i = Some f' \<and> FieldID f' = i))
      \<and> (Name pk \<in> dom (name2FieldID r) \<longleftrightarrow>
            \<not> AutoID pk \<and> (\<forall>d. GetDynamicField schema = Some d \<longrightarrow> Name d \<noteq> Name pk))
      \<and> (distinct (map Name (Fields schema)) \<longrightarrow>
            (\<forall>f\<in>set (Fields schema). Name f \<in> explicit_names schema pk \<longrightarrow>
               name2FieldID r (Name f) = Some (FieldID f)))
      \<and> (distinct (map FieldID (Fields schema)) \<longrightarrow>
            (\<forall>f\<in>set (Fields schema). id2Field r (FieldID f) = Some f)
            \<and> inj_on (name2FieldID r) (dom (name2FieldID r)))"
proof -
  from assms obtain pk where pk: "GetPrimaryFieldSchema schema = Inr pk"
    and pkf: "pkField r = Some pk"
    and id2: "id2Field r = KeyBy (Fields schema) FieldID"
    and n2: "name2FieldID r = (\<lambda>n. if n \<in> explicit_names schema pk
        then SliceToMap (Fields schema) (\<lambda>field. (Name field, FieldID field)) n else None)"
    by (rule NewRowParser_Inr)
  have dom: "dom (name2FieldID r) = explicit_names schema pk"
    using assms pk by (rule name2FieldID_dom)
  have names: "\<forall>n\<in>explicit_names schema pk.
            name2FieldID r n
              = map_option FieldID (find (\<lambda>f. Name f = n) (rev (Fields schema)))"
    by (simp add: n2 SliceToMap_find)
  have ids: "\<forall>i. id2Field r i = find (\<lambda>f. FieldID f = i) (rev (Fields schema))"
    by (simp add: id2 KeyBy_find)
  have some: "\<forall>n i. name2FieldID r n = Some i \<longrightarrow>
            (\<exists>f\<in>set (Fields schema). Name f = n \<and> FieldID f = i)
            \<and> (\<exists>f'\<in>set (Fields schema). id2Field r i = Some f' \<and> FieldID f' = i)"
  proof (intro allI impI)
    fix n i
    assume "name2FieldID r n = Some i"
    from name2FieldID_SomeD[OF assms this]
    obtain f where f: "f \<in> set (Fields schema)" "Name f = n" "FieldID f = i"
      by blast
    then have "find (\<lambda>f. FieldID f = i) (rev (Fields schema)) \<noteq> None"
      by (auto simp: find_None_iff)
    then obtain f' where f': "find (\<lambda>f. FieldID f = i) (rev (Fields schema)) = Some f'"
      by blast
    then have "f' \<in> set (Fields schema)" "FieldID f' = i"
      by (auto dest: find_SomeD)
    with f' ids have "\<exists>f'\<in>set (Fields schema). id2Field r i = Some f' \<and> FieldID f' = i"
      by auto
    with f show "(\<exists>f\<in>set (Fields schema). Name f = n \<and> FieldID f = i)
            \<and> (\<exists>f'\<in>set (Fields schema). id2Field r i = Some f' \<and> FieldID f' = i)"
      by blast
  qed
  have keeps: "Name pk \<in> dom (name2FieldID r) \<longleftrightarrow>
            \<not> AutoID pk \<and> (\<forall>d. GetDynamicField schema = Some d \<longrightarrow> Name d \<noteq> Name pk)"
  proof -
    from pk have "pk \<in> set (Fields schema)"
      by (auto simp: GetPrimaryFieldSchema_def find_Some_iff split: option.splits)
    then have "Name pk \<in> Name ` set (Fields schema)" by simp
    then show ?thesis
      unfolding dom explicit_names_def
      by (cases "GetDynamicField schema") auto
  qed
  have dn: "distinct (map Name (Fields schema)) \<longrightarrow>
            (\<forall>f\<in>set (Fields schema). Name f \<in> explicit_names schema pk \<longrightarrow>
               name2FieldID r (Name f) = Some (FieldID f))"
  proof (intro impI ballI)
    fix f
    assume d: "distinct (map Name (Fields schema))" and f: "f \<in> set (Fields schema)"
      and e: "Name f \<in> explicit_names schema pk"
    from e dom obtain i where i: "name2FieldID r (Name f) = Some i" by blast
    from name2FieldID_SomeD[OF assms i]
    obtain f' where f': "f' \<in> set (Fields schema)" "Name f' = Name f" "FieldID f' = i"
      by blast
    from d f f' have "f' = f"
      by (metis distinct_map inj_on_def)
    with i f' show "name2FieldID r (Name f) = Some (FieldID f)" by simp
  qed
  have di: "distinct (map FieldID (Fields schema)) \<longrightarrow>
            (\<forall>f\<in>set (Fields schema). id2Field r (FieldID f) = Some f)
            \<and> inj_on (name2FieldID r) (dom (name2FieldID r))"
  proof (intro impI conjI ballI)
    fix f
    assume "distinct (map FieldID (Fields schema))" and "f \<in> set (Fields schema)"
    then show "id2Field r (FieldID f) = Some f"
      unfolding id2 by (rule KeyBy_distinct)
  next
    assume d: "distinct (map FieldID (Fields schema))"
    show "inj_on (name2FieldID r) (dom (name2FieldID r))"
    proof (rule inj_onI)
      fix x y
      assume x: "x \<in> dom (name2FieldID r)" and eq: "name2FieldID r x = name2FieldID r y"
      from x obtain i where i: "name2FieldID r x = Some i" by blast
      with eq have "name2FieldID r y = Some i" by simp
      with assms d i show "x = y" by (rule name2FieldID_inj)
    qed
  qed
  show ?thesis
    by (rule exI[of _ pk]) (intro conjI pk pkf dom names ids some keeps dn di)
qed

text \<open>The schema with a dynamic field: \<open>id\<close> and \<open>vector\<close> remain, \<open>$meta\<close> is removed.\<close>

theorem C5_schema_index_maps_witness:
  "NewRowParser meta_schema = Inr meta_parser
   \<and> distinct (map Name (Fields meta_schema)) \<and> distinct (map FieldID (Fields meta_schema))
   \<and> GetPrimaryFieldSchema meta_schema = Inr id_field \<and> \<not> AutoID id_field
   \<and> GetDynamicField meta_schema = Some meta_field
   \<and> dom (name2FieldID meta_parser) = {''id'', ''vector''}
   \<and> name2FieldID meta_parser ''id'' = Some 100
   \<and> id2Field meta_parser 100 = Some id_field"
proof -
  have pk: "GetPrimaryFieldSchema meta_schema = Inr id_field"
    by (simp add: GetPrimaryFieldSchema_def meta_schema_def id_field_def)
  have dy: "GetDynamicField meta_schema = Some meta_field"
    by (simp add: GetDynamicField_def meta_schema_def id_field_def vector_field_def meta_field_def)
  have ns: "Name ` set (Fields meta_schema) = {''id'', ''vector'', ''$meta''}"
    by (simp add: meta_schema_def id_field_def vector_field_def meta_field_def)
  have ex: "explicit_names meta_schema id_field = {''id'', ''vector''}"
    unfolding explicit_names_def dy ns
    by (simp add: id_field_def meta_field_def insert_Diff_if)
  have dn: "distinct (map Name (Fields meta_schema))"
    by (simp add: meta_schema_def id_field_def vector_field_def meta_field_def)
  have di: "distinct (map FieldID (Fields meta_schema))"
    by (simp add: meta_schema_def id_field_def vector_field_def meta_field_def)
  have f: "id_field \<in> set (Fields meta_schema)" "Name id_field = ''id''" "FieldID id_field = 100"
      "\<not> AutoID id_field"
    by (simp_all add: meta_schema_def id_field_def)
  from C5_schema_index_maps[OF NewRowParser_meta] obtain pk' where
    a: "GetPrimaryFieldSchema meta_schema = Inr pk'"
    and b: "dom (name2FieldID meta_parser) = explicit_names meta_schema pk'"
    and c: "distinct (map Name (Fields meta_schema)) \<longrightarrow>
            (\<forall>f\<in>set (Fields meta_schema). Name f \<in> explicit_names meta_schema pk' \<longrightarrow>
               name2FieldID meta_parser (Name f) = Some (FieldID f))"
    and d: "distinct (map FieldID (Fields meta_schema)) \<longrightarrow>
            (\<forall>f\<in>set (Fields meta_schema). id2Field meta_parser (FieldID f) = Some f)
            \<and> inj_on (name2FieldID meta_parser) (dom (name2FieldID meta_parser))"
    by blast
  from a pk have pk': "pk' = id_field" by simp
  from b ex have dm: "dom (name2FieldID meta_parser) = {''id'', ''vector''}"
    by (simp add: pk')
  have "Name id_field \<in> explicit_names meta_schema pk'"
    by (simp add: pk' ex f)
  with c dn f(1) have "name2FieldID meta_parser (Name id_field) = Some (FieldID id_field)"
    by blast
  moreover from d di f(1) have "id2Field meta_parser (FieldID id_field) = Some id_field"
    by blast
  ultimately
  have "name2FieldID meta_parser ''id'' = Some 100 \<and> id2Field meta_parser 100 = Some id_field"
    by (simp only: f)
  with NewRowParser_meta dn di pk f(4) dy dm show ?thesis
    by blast
qed

text \<open>
  C5 as stated fails on two schemas that \<open>NewRowParser\<close> accepts. In the first the
  primary key is not auto-generated and is also flagged as the dynamic field: its name
  has no entry. In the second \<open>tiny\<close> and \<open>tiny2\<close> share the ID 103: the retained name
  \<open>tiny\<close> maps to 103, under which \<open>id2Field\<close> holds the field \<open>tiny2\<close>, not the field
  bearing the name.
\<close>

theorem C5_counterexample:
  "NewRowParser pkdyn_schema = Inr pkdyn_parser
   \<and> GetPrimaryFieldSchema pkdyn_schema = Inr pkdyn_field
   \<and> \<not> AutoID pkdyn_field
   \<and> name2FieldID pkdyn_parser (Name pkdyn_field) = None
   \<and> NewRowParser dup_schema = Inr dup_parser
   \<and> tiny_field \<in> set (Fields dup_schema)
   \<and> name2FieldID dup_parser (Name tiny_field) = Some 103
   \<and> id2Field dup_parser 103 = Some tiny2_field
   \<and> Name tiny2_field \<noteq> Name tiny_field"
proof -
  have 1: "GetPrimaryFieldSchema pkdyn_schema = Inr pkdyn_field"
    by (simp add: GetPrimaryFieldSchema_def pkdyn_schema_def pkdyn_field_def)
  have 2: "\<not> AutoID pkdyn_field"
    by (simp add: pkdyn_field_def)
  have 3: "name2FieldID pkdyn_parser (Name pkdyn_field) = None"
    by (simp add: pkdyn_parser_def pkdyn_field_def)
  have 4: "tiny_field \<in> set (Fields dup_schema)"
    by (simp add: dup_schema_def)
  have 5: "name2FieldID dup_parser (Name tiny_field) = Some 103"
    by (simp add: dup_parser_def tiny_field_def)
  have 6: "id2Field dup_parser 103 = Some tiny2_field"
    by (simp add: dup_parser_def)
  have 7: "Name tiny2_field \<noteq> Name tiny_field"
    by (simp add: tiny_field_def tiny2_field_def)
  from NewRowParser_pkdyn 1 2 3 NewRowParser_dup 4 5 6 7 show ?thesis
    by blast
qed

section \<open>The auto-generated primary key\<close>

text \<open>
  C3. When the primary key is auto-generated, a record that holds a key equal to the
  primary key's name is rejected with the error saying so, whatever the value under the
  key, whatever the other pairs, the library and the order of visit: the check comes
  before the loop over the pairs.
\<close>

theorem C3_auto_primary_key_rejected:
  assumes "NewRowParser schema = Inr r"
    and "GetPrimaryFieldSchema schema = Inr pk"
    and "AutoID pk"
    and "stringMap (Name pk) = Some v"
  shows "Parse L r keys names (AnyMap stringMap) = Inl (ErrAutoGenerated (Name pk))"
proof -
  from assms(1) obtain pk' where "GetPrimaryFieldSchema schema = Inr pk'" "pkField r = Some pk'"
    by (rule NewRowParser_Inr)
  with assms(2) have "pkField r = Some pk" by simp
  with assms(3,4) show ?thesis
    by (simp add: Parse_def GetName_def GetAutoID_def)
qed

text \<open>A record supplying \<open>id\<close>, with values that no field would accept.\<close>

theorem C3_auto_primary_key_rejected_witness:
  "NewRowParser auto_schema = Inr auto_parser
   \<and> GetPrimaryFieldSchema auto_schema = Inr auto_id_field
   \<and> AutoID auto_id_field
   \<and> [''id'' \<mapsto> AnySlice [], ''vector'' \<mapsto> AnyNil] (Name auto_id_field) = Some (AnySlice [])
   \<and> Parse example_lib auto_parser [''vector'', ''id''] [''vector'']
        (AnyMap [''id'' \<mapsto> AnySlice [], ''vector'' \<mapsto> AnyNil])
      = Inl (ErrAutoGenerated ''id'')"
proof -
  have pk: "GetPrimaryFieldSchema auto_schema = Inr auto_id_field"
    by (simp add: GetPrimaryFieldSchema_def auto_schema_def auto_id_field_def)
  have a: "AutoID auto_id_field" and n: "Name auto_id_field = ''id''"
    by (simp_all add: auto_id_field_def)
  have m: "[''id'' \<mapsto> AnySlice [], ''vector'' \<mapsto> AnyNil] (Name auto_id_field) = Some (AnySlice [])"
    by (simp add: n)
  have "Parse example_lib auto_parser [''vector'', ''id''] [''vector'']
        (AnyMap [''id'' \<mapsto> AnySlice [], ''vector'' \<mapsto> AnyNil])
      = Inl (ErrAutoGenerated (Name auto_id_field))"
    using NewRowParser_auto pk a m
    by (rule C3_auto_primary_key_rejected
        [where stringMap = "[''id'' \<mapsto> AnySlice [], ''vector'' \<mapsto> AnyNil]"])
  with NewRowParser_auto pk a m show ?thesis
    by (simp only: n simp_thms)
qed

section \<open>Literals of the examples\<close>

lemma ParseInt_1_32: "ParseInt ''1'' 0 32 = (1, None)"
  by (simp add: ParseInt_def ParseUint_def digit_of_def lower_def)
lemma ParseInt_2_32: "ParseInt ''2'' 0 32 = (2, None)"
  by (simp add: ParseInt_def ParseUint_def digit_of_def lower_def)
lemma ParseInt_3_32: "ParseInt ''3'' 0 32 = (3, None)"
  by (simp add: ParseInt_def ParseUint_def digit_of_def lower_def)
lemma ParseInt_1000_32: "ParseInt ''1000'' 0 32 = (1000, None)"
  by (simp add: ParseInt_def ParseUint_def digit_of_def lower_def)
lemma ParseInt_1000_8: "ParseInt ''1000'' 0 8 = (127, Some (NumError ''ParseInt'' ''1000'' ErrRange))"
  by (simp add: ParseInt_def ParseUint_def digit_of_def lower_def)
lemma ParseInt_100000_32: "ParseInt ''100000'' 0 32 = (100000, None)"
  by (simp add: ParseInt_def ParseUint_def digit_of_def lower_def)
lemma ParseInt_100000_16:
  "ParseInt ''100000'' 0 16 = (32767, Some (NumError ''ParseInt'' ''100000'' ErrRange))"
  by (simp add: ParseInt_def ParseUint_def digit_of_def lower_def)
lemma ParseUint_1_8: "ParseUint ''1'' 0 8 = (1, None)"
  by (simp add: ParseUint_def digit_of_def lower_def)
lemma ParseUint_2_8: "ParseUint ''2'' 0 8 = (2, None)"
  by (simp add: ParseUint_def digit_of_def lower_def)
lemma ParseUint_3_8: "ParseUint ''3'' 0 8 = (3, None)"
  by (simp add: ParseUint_def digit_of_def lower_def)

lemma ParseInt_1_64: "ParseInt ''1'' 0 64 = (1, None)"
  by (simp add: ParseInt_def ParseUint_def digit_of_def lower_def)
lemma ParseUint_255_8: "ParseUint ''255'' 0 8 = (255, None)"
  by (simp add: ParseUint_def digit_of_def lower_def)

lemma ParseInt_2147483648_32:
  "ParseInt ''2147483648'' 0 32
     = (2147483647, Some (NumError ''ParseInt'' ''2147483648'' ErrRange))"
  by (simp add: ParseInt_def ParseUint_def digit_of_def lower_def)

lemma isValidNumber_8: "isValidNumber ''8''"
  by (simp add: isValidNumber_def is_digit_def)
lemma isValidNumber_1: "isValidNumber ''1''"
  by (simp add: isValidNumber_def is_digit_def)
lemma isValidNumber_abc: "\<not> isValidNumber ''abc''"
  by (simp add: isValidNumber_def is_digit_def)

text \<open>A map is accepted by the encoder when each of its values is.\<close>

lemma marshal_ok_AnyMap: "marshal_ok (AnyMap m) \<longleftrightarrow> (\<forall>k v. m k = Some v \<longrightarrow> marshal_ok v)"
proof -
  have "map_option marshal_ok (m k) \<noteq> Some False \<longleftrightarrow> (\<forall>v. m k = Some v \<longrightarrow> marshal_ok v)"
    for k
    by (cases "m k") simp_all
  then show ?thesis by simp
qed

lemma marshal_ok_AnySlice: "marshal_ok (AnySlice xs) \<longleftrightarrow> (\<forall>x\<in>set xs. marshal_ok x)"
  by (simp add: list_all_iff)

lemma Marshal_x:
  \<open>Marshal example_lib [''x'' \<mapsto> AnyNumber ''8''] = Inr (bytes_of ''{"x":8}'')\<close>
proof -
  have "marshal_ok (AnyMap [''x'' \<mapsto> AnyNumber ''8''])"
    unfolding marshal_ok_AnyMap by (simp add: isValidNumber_8)
  then show ?thesis
    by (simp add: Marshal_def example_lib_def)
qed

lemma Marshal_a:
  \<open>Marshal example_lib [''a'' \<mapsto> AnyNumber ''1''] = Inr (bytes_of ''{"a":1}'')\<close>
proof -
  have "marshal_ok (AnyMap [''a'' \<mapsto> AnyNumber ''1''])"
    unfolding marshal_ok_AnyMap by (simp add: isValidNumber_1)
  then show ?thesis
    by (simp add: Marshal_def example_lib_def)
qed

lemma Marshal_abc:
  "Marshal example_lib [''a'' \<mapsto> AnyNumber ''abc'']
     = Inl (LibError ''json: invalid number literal'')"
proof -
  have "\<not> marshal_ok (AnyMap [''a'' \<mapsto> AnyNumber ''abc''])"
    unfolding marshal_ok_AnyMap by (simp add: isValidNumber_abc)
  then show ?thesis
    by (simp add: Marshal_def example_lib_def)
qed

section \<open>Arrays of integers\<close>

text \<open>The loop over 32-bit integers: a prefix of accepted literals extends the slice.\<close>

lemma int32_values_append:
  assumes "\<forall>y\<in>set pre. \<exists>v n. y = AnyNumber v \<and> ParseInt v 0 32 = (n, None)"
  shows "\<exists>ns. length ns = length pre
      \<and> (\<forall>rest. int32_values t arr (pre @ rest) values = int32_values t arr rest (values @ ns))"
  using assms
proof (induction pre arbitrary: "values")
  case Nil
  then show ?case by simp
next
  case (Cons y pre)
  from Cons.prems obtain v n where y: "y = AnyNumber v" "ParseInt v 0 32 = (n, None)"
    by auto
  from Cons.prems have "\<forall>y\<in>set pre. \<exists>v n. y = AnyNumber v \<and> ParseInt v 0 32 = (n, None)"
    by simp
  from Cons.IH[OF this, of "values @ [word_of_int n]"] obtain ns where
    ns: "length ns = length pre"
      "\<forall>rest. int32_values t arr (pre @ rest) (values @ [word_of_int n])
           = int32_values t arr rest ((values @ [word_of_int n]) @ ns)"
    by blast
  have "length (word_of_int n # ns) = length (y # pre)"
    using ns(1) by simp
  moreover have "\<forall>rest. int32_values t arr ((y # pre) @ rest) values
      = int32_values t arr rest (values @ (word_of_int n # ns))"
    using ns(2) y by simp
  ultimately show ?case by blast
qed

lemma int32_values_type_error:
  assumes "\<forall>y\<in>set pre. \<exists>v n. y = AnyNumber v \<and> ParseInt v 0 32 = (n, None)"
    and "\<forall>v. x \<noteq> AnyNumber v"
  shows "int32_values t arr (pre @ x # post) values = Inl (wrapArrayValueTypeError (AnySlice arr) t)"
proof -
  from int32_values_append[OF assms(1), of t arr "values"] obtain ns where
    "int32_values t arr (pre @ x # post) values = int32_values t arr (x # post) (values @ ns)"
    by blast
  moreover have "int32_values t arr (x # post) (values @ ns)
      = Inl (wrapArrayValueTypeError (AnySlice arr) t)"
    using assms(2) by (cases x) simp_all
  ultimately show ?thesis by simp
qed

text \<open>
  C4, as the code has it. In an array field of element type int32, the first element
  that is not a number, after elements that parse as 32-bit integers, aborts the whole
  array with the element type error: the error names the declared element type and
  reports the dynamic type and the value of the whole array; it holds no index and
  nothing of the offending element alone. The list \<open>[1, 2, 3]\<close> gives the three 32-bit
  integers.
\<close>

theorem C4_int32_array_type_error:
  assumes "\<forall>y\<in>set pre. \<exists>v n. y = AnyNumber v \<and> ParseInt v 0 32 = (n, None)"
    and "\<forall>v. x \<noteq> AnyNumber v"
  shows "arrayToFieldData L (pre @ x # post) DataType_Int32
           = Inl (ErrExpectedElementType DataType_Int32 ''[]interface {}''
                    (AnySlice (pre @ x # post)))
       \<and> arrayToFieldData L [AnyNumber ''1'', AnyNumber ''2'', AnyNumber ''3''] DataType_Int32
           = Inr (IntData [1, 2, 3])"
proof
  show "arrayToFieldData L (pre @ x # post) DataType_Int32
           = Inl (ErrExpectedElementType DataType_Int32 ''[]interface {}''
                    (AnySlice (pre @ x # post)))"
    using int32_values_type_error[OF assms, of DataType_Int32 "pre @ x # post" post "[]"]
    by (simp add: arrayToFieldData_def wrapArrayValueTypeError_def)
  show "arrayToFieldData L [AnyNumber ''1'', AnyNumber ''2'', AnyNumber ''3''] DataType_Int32
           = Inr (IntData [1, 2, 3])"
    by (simp add: arrayToFieldData_def ParseInt_1_32 ParseInt_2_32 ParseInt_3_32)
qed

text \<open>The list \<open>[1, 2, "3"]\<close>: two accepted numbers, then a string.\<close>

theorem C4_int32_array_type_error_witness:
  "(\<exists>v n. AnyNumber ''1'' = AnyNumber v \<and> ParseInt v 0 32 = (n, None))
   \<and> (\<exists>v n. AnyNumber ''2'' = AnyNumber v \<and> ParseInt v 0 32 = (n, None))
   \<and> arrayToFieldData example_lib [AnyNumber ''1'', AnyNumber ''2'', AnyString ''3''] DataType_Int32
       = Inl (ErrExpectedElementType DataType_Int32 ''[]interface {}''
                (AnySlice [AnyNumber ''1'', AnyNumber ''2'', AnyString ''3'']))
   \<and> arrayToFieldData example_lib [AnyNumber ''1'', AnyNumber ''2'', AnyNumber ''3''] DataType_Int32
       = Inr (IntData [1, 2, 3])"
proof -
  have a: "\<exists>v n. AnyNumber ''1'' = AnyNumber v \<and> ParseInt v 0 32 = (n, None)"
    using ParseInt_1_32 by blast
  have b: "\<exists>v n. AnyNumber ''2'' = AnyNumber v \<and> ParseInt v 0 32 = (n, None)"
    using ParseInt_2_32 by blast
  have pre: "\<forall>y\<in>set [AnyNumber ''1'', AnyNumber ''2'']. \<exists>v n. y = AnyNumber v \<and> ParseInt v 0 32 = (n, None)"
    using a b by simp
  have x: "\<forall>v. AnyString ''3'' \<noteq> AnyNumber v" by simp
  from C4_int32_array_type_error[OF pre x, of example_lib "[]"] a b
  show ?thesis by simp
qed

text \<open>
  C4 as stated fails on \<open>[1, 2, "3"]\<close>: the error is the one built from the whole array,
  whose reported type is that of the list; it is not the error built from the offending
  element \<open>"3"\<close>, whose type is \<open>string\<close>, and it has no index.
\<close>

theorem C4_counterexample:
  "arrayToFieldData example_lib [AnyNumber ''1'', AnyNumber ''2'', AnyString ''3''] DataType_Int32
     = Inl (ErrExpectedElementType DataType_Int32 ''[]interface {}''
              (AnySlice [AnyNumber ''1'', AnyNumber ''2'', AnyString ''3'']))
   \<and> arrayToFieldData example_lib [AnyNumber ''1'', AnyNumber ''2'', AnyString ''3''] DataType_Int32
     \<noteq> Inl (wrapArrayValueTypeError (AnyString ''3'') DataType_Int32)
   \<and> go_type (AnyString ''3'') = ''string''"
  by (simp add: arrayToFieldData_def wrapArrayValueTypeError_def ParseInt_1_32 ParseInt_2_32)

lemma int32_values_list_all2:
  assumes "list_all2 (\<lambda>y n. \<exists>v. y = AnyNumber v \<and> ParseInt v 0 32 = (n, None)) xs ns"
  shows "int32_values t arr xs values = Inr (values @ map word_of_int ns)"
  using assms
proof (induction xs ns arbitrary: "values" rule: list_all2_induct)
  case Nil
  then show ?case by simp
next
  case (Cons y ys n ns)
  from Cons.hyps(1) obtain v where "y = AnyNumber v" "ParseInt v 0 32 = (n, None)"
    by blast
  then show ?case
    using Cons.IH[of "values @ [word_of_int n]"] by simp
qed

lemma int32_values_eleType:
  "int32_values t arr xs values = Inr vs \<longleftrightarrow> int32_values t' arr xs values = Inr vs"
proof (induction xs arbitrary: "values")
  case Nil
  show ?case by simp
next
  case (Cons y ys)
  show ?case
  proof (cases y)
    case (AnyNumber v)
    obtain num err where p: "ParseInt v 0 32 = (num, err)"
      by (cases "ParseInt v 0 32")
    show ?thesis
      using Cons.IH[of "values @ [word_of_int num]"] AnyNumber p
      by (cases err) simp_all
  qed simp_all
qed

text \<open>The loop accepts a list exactly when each element parses as a 32-bit integer.\<close>

lemma int32_values_Inr_accepts:
  assumes "int32_values t arr xs values = Inr vs"
  shows "\<forall>y\<in>set xs. \<exists>v n. y = AnyNumber v \<and> ParseInt v 0 32 = (n, None)"
  using assms
proof (induction xs arbitrary: "values")
  case Nil
  show ?case by simp
next
  case (Cons y ys)
  show ?case
  proof (cases y)
    case (AnyNumber v)
    obtain num err where p: "ParseInt v 0 32 = (num, err)"
      by (cases "ParseInt v 0 32")
    show ?thesis
    proof (cases err)
      case None
      with Cons.prems AnyNumber p
      have "int32_values t arr ys (values @ [word_of_int num]) = Inr vs"
        by simp
      from Cons.IH[OF this] AnyNumber p None show ?thesis by simp
    next
      case (Some e)
      with Cons.prems AnyNumber p show ?thesis by simp
    qed
  qed (use Cons.prems in simp_all)
qed

lemma int32_values_parse_error:
  assumes "\<forall>y\<in>set pre. \<exists>v n. y = AnyNumber v \<and> ParseInt v 0 32 = (n, None)"
    and "ParseInt v 0 32 = (n, Some err)"
  shows "int32_values t arr (pre @ AnyNumber v # post) values = Inl err"
proof -
  from int32_values_append[OF assms(1), of t arr "values"] obtain ns where
    "int32_values t arr (pre @ AnyNumber v # post) values
       = int32_values t arr (AnyNumber v # post) (values @ ns)"
    by blast
  with assms(2) show ?thesis by simp
qed

text \<open>
  C10. An array whose element type is int8 or int16 is read exactly as an array of
  int32: the same inputs succeed, with the same result. Each element is parsed by
  \<open>ParseInt\<close> at 32 bits and at no narrower width: the array is accepted if and only if
  every element is a number that \<open>ParseInt\<close> accepts at 32 bits, the values stored are
  the parsed ones, and the first element that \<open>ParseInt\<close> rejects at 32 bits aborts the
  array with the error of \<open>ParseInt\<close>. So \<open>1000\<close> is accepted in an int8 array and
  \<open>100000\<close> in an int16 array, and stored, also through an array field, while
  \<open>2147483648\<close> is rejected there; a scalar int8 field rejects \<open>1000\<close> and a scalar int16
  field rejects \<open>100000\<close> with a range error.
\<close>

theorem C10_narrow_array_elements:
  assumes "eleType = DataType_Int8 \<or> eleType = DataType_Int16"
    and "GetDataType (id2Field r f8) = DataType_Int8"
    and "GetDataType (id2Field r f16) = DataType_Int16"
    and "GetDataType (id2Field r fa) = DataType_Array"
    and "GetElementType (id2Field r fa) = DataType_Int8"
  shows "(\<forall>sf. arrayToFieldData L arr eleType = Inr sf
              \<longleftrightarrow> arrayToFieldData L arr DataType_Int32 = Inr sf)
       \<and> (list_all2 (\<lambda>y n. \<exists>v. y = AnyNumber v \<and> ParseInt v 0 32 = (n, None)) arr ns \<longrightarrow>
            arrayToFieldData L arr eleType = Inr (IntData (map word_of_int ns)))
       \<and> ((\<exists>sf. arrayToFieldData L arr eleType = Inr sf) \<longleftrightarrow>
            (\<forall>y\<in>set arr. \<exists>v n. y = AnyNumber v \<and> ParseInt v 0 32 = (n, None)))
       \<and> (\<forall>pre v n err post.
            arr = pre @ AnyNumber v # post
            \<and> (\<forall>y\<in>set pre. \<exists>v n. y = AnyNumber v \<and> ParseInt v 0 32 = (n, None))
            \<and> ParseInt v 0 32 = (n, Some err)
            \<longrightarrow> arrayToFieldData L arr eleType = Inl err)
       \<and> arrayToFieldData L [AnyNumber ''1000''] DataType_Int8 = Inr (IntData [1000])
       \<and> parseEntity L r f8 (AnyNumber ''1000'') = Inl (NumError ''ParseInt'' ''1000'' ErrRange)
       \<and> arrayToFieldData L [AnyNumber ''100000''] DataType_Int16 = Inr (IntData [100000])
       \<and> parseEntity L r f16 (AnyNumber ''100000'')
           = Inl (NumError ''ParseInt'' ''100000'' ErrRange)
       \<and> arrayToFieldData L [AnyNumber ''2147483648''] DataType_Int8
           = Inl (NumError ''ParseInt'' ''2147483648'' ErrRange)
       \<and> parseEntity L r fa (AnySlice [AnyNumber ''1000''])
           = Inr (V_ScalarField (IntData [1000]))
       \<and> parseEntity L r fa (AnySlice [AnyNumber ''2147483648''])
           = Inl (NumError ''ParseInt'' ''2147483648'' ErrRange)"
proof -
  from assms(1) consider "eleType = DataType_Int8" | "eleType = DataType_Int16"
    by blast
  then have a: "arrayToFieldData L arr eleType = map_sum id IntData (int32_values eleType arr arr [])"
    for arr
    by cases (simp_all add: arrayToFieldData_def)
  have b: "arrayToFieldData L arr DataType_Int32
      = map_sum id IntData (int32_values DataType_Int32 arr arr [])"
    by (simp add: arrayToFieldData_def)
  have 1: "\<forall>sf. arrayToFieldData L arr eleType = Inr sf
              \<longleftrightarrow> arrayToFieldData L arr DataType_Int32 = Inr sf"
  proof
    fix sf
    have "arrayToFieldData L arr eleType = Inr sf
        \<longleftrightarrow> (\<exists>vs. int32_values eleType arr arr [] = Inr vs \<and> sf = IntData vs)"
      unfolding a by (cases "int32_values eleType arr arr []") auto
    also have "\<dots> \<longleftrightarrow> (\<exists>vs. int32_values DataType_Int32 arr arr [] = Inr vs \<and> sf = IntData vs)"
      by (simp only: int32_values_eleType[of eleType arr arr "[]" _ DataType_Int32])
    also have "\<dots> \<longleftrightarrow> arrayToFieldData L arr DataType_Int32 = Inr sf"
      unfolding b by (cases "int32_values DataType_Int32 arr arr []") auto
    finally show "arrayToFieldData L arr eleType = Inr sf
              \<longleftrightarrow> arrayToFieldData L arr DataType_Int32 = Inr sf" .
  qed
  have 2: "list_all2 (\<lambda>y n. \<exists>v. y = AnyNumber v \<and> ParseInt v 0 32 = (n, None)) arr ns \<longrightarrow>
            arrayToFieldData L arr eleType = Inr (IntData (map word_of_int ns))"
  proof
    assume l: "list_all2 (\<lambda>y n. \<exists>v. y = AnyNumber v \<and> ParseInt v 0 32 = (n, None)) arr ns"
    show "arrayToFieldData L arr eleType = Inr (IntData (map word_of_int ns))"
      unfolding a using int32_values_list_all2[OF l, of eleType arr "[]"] by simp
  qed
  have 3: "(\<exists>sf. arrayToFieldData L arr eleType = Inr sf) \<longleftrightarrow>
            (\<forall>y\<in>set arr. \<exists>v n. y = AnyNumber v \<and> ParseInt v 0 32 = (n, None))"
  proof
    assume "\<exists>sf. arrayToFieldData L arr eleType = Inr sf"
    then obtain vs where "int32_values eleType arr arr [] = Inr vs"
      unfolding a by (cases "int32_values eleType arr arr []") auto
    then show "\<forall>y\<in>set arr. \<exists>v n. y = AnyNumber v \<and> ParseInt v 0 32 = (n, None)"
      by (rule int32_values_Inr_accepts)
  next
    assume ok: "\<forall>y\<in>set arr. \<exists>v n. y = AnyNumber v \<and> ParseInt v 0 32 = (n, None)"
    from int32_values_append[OF ok, of eleType arr "[]"] obtain ns where
      "int32_values eleType arr (arr @ []) [] = int32_values eleType arr [] ([] @ ns)"
      by blast
    then have "int32_values eleType arr arr [] = Inr ns" by simp
    then show "\<exists>sf. arrayToFieldData L arr eleType = Inr sf"
      unfolding a by simp
  qed
  have 4: "\<forall>pre v n err post.
            arr = pre @ AnyNumber v # post
            \<and> (\<forall>y\<in>set pre. \<exists>v n. y = AnyNumber v \<and> ParseInt v 0 32 = (n, None))
            \<and> ParseInt v 0 32 = (n, Some err)
            \<longrightarrow> arrayToFieldData L arr eleType = Inl err"
  proof (intro allI impI, elim conjE)
    fix pre v n err post
    assume arr: "arr = pre @ AnyNumber v # post"
      and pre: "\<forall>y\<in>set pre. \<exists>v n. y = AnyNumber v \<and> ParseInt v 0 32 = (n, None)"
      and p: "ParseInt v 0 32 = (n, Some err)"
    from int32_values_parse_error[OF pre p, of eleType arr post "[]"]
    show "arrayToFieldData L arr eleType = Inl err"
      unfolding a by (simp add: arr)
  qed
  have 5: "arrayToFieldData L [AnyNumber ''1000''] DataType_Int8 = Inr (IntData [1000])"
    by (simp add: arrayToFieldData_def ParseInt_1000_32)
  have 6: "parseEntity L r f8 (AnyNumber ''1000'') = Inl (NumError ''ParseInt'' ''1000'' ErrRange)"
    using assms(2) by (simp add: parseEntity_def parse_int_field_def ParseInt_1000_8)
  have 7: "arrayToFieldData L [AnyNumber ''100000''] DataType_Int16 = Inr (IntData [100000])"
    by (simp add: arrayToFieldData_def ParseInt_100000_32)
  have 8: "parseEntity L r f16 (AnyNumber ''100000'')
           = Inl (NumError ''ParseInt'' ''100000'' ErrRange)"
    using assms(3) by (simp add: parseEntity_def parse_int_field_def ParseInt_100000_16)
  have 9: "arrayToFieldData L [AnyNumber ''2147483648''] DataType_Int8
           = Inl (NumError ''ParseInt'' ''2147483648'' ErrRange)"
    by (simp add: arrayToFieldData_def ParseInt_2147483648_32)
  have 10: "parseEntity L r fa (AnySlice [AnyNumber ''1000''])
           = Inr (V_ScalarField (IntData [1000]))"
    using assms(4,5) by (simp add: parseEntity_def 5)
  have 11: "parseEntity L r fa (AnySlice [AnyNumber ''2147483648''])
           = Inl (NumError ''ParseInt'' ''2147483648'' ErrRange)"
    using assms(4,5) by (simp add: parseEntity_def 9)
  show ?thesis
    by (intro conjI 1 2 3 4 5 6 7 8 9 10 11)
qed

text \<open>
  An int8 array holding \<open>1000\<close> and \<open>100000\<close>, one holding \<open>2147483648\<close> after \<open>1000\<close>,
  the scalar fields \<open>tiny\<close> and \<open>small\<close> and the array field \<open>tinies\<close>.
\<close>

theorem C10_narrow_array_elements_witness:
  "GetDataType (id2Field ints_parser 103) = DataType_Int8
   \<and> GetDataType (id2Field ints_parser 104) = DataType_Int16
   \<and> GetDataType (id2Field ints_parser 105) = DataType_Array
   \<and> GetElementType (id2Field ints_parser 105) = DataType_Int8
   \<and> list_all2 (\<lambda>y n. \<exists>v. y = AnyNumber v \<and> ParseInt v 0 32 = (n, None))
       [AnyNumber ''1000'', AnyNumber ''100000''] [1000, 100000]
   \<and> arrayToFieldData example_lib [AnyNumber ''1000'', AnyNumber ''100000''] DataType_Int8
       = Inr (IntData [1000, 100000])
   \<and> (\<exists>v n. AnyNumber ''1000'' = AnyNumber v \<and> ParseInt v 0 32 = (n, None))
   \<and> ParseInt ''2147483648'' 0 32
       = (2147483647, Some (NumError ''ParseInt'' ''2147483648'' ErrRange))
   \<and> arrayToFieldData example_lib [AnyNumber ''1000'', AnyNumber ''2147483648''] DataType_Int8
       = Inl (NumError ''ParseInt'' ''2147483648'' ErrRange)
   \<and> parseEntity example_lib ints_parser 103 (AnyNumber ''1000'')
       = Inl (NumError ''ParseInt'' ''1000'' ErrRange)
   \<and> parseEntity example_lib ints_parser 104 (AnyNumber ''100000'')
       = Inl (NumError ''ParseInt'' ''100000'' ErrRange)
   \<and> parseEntity example_lib ints_parser 105 (AnySlice [AnyNumber ''1000''])
       = Inr (V_ScalarField (IntData [1000]))
   \<and> parseEntity example_lib ints_parser 105 (AnySlice [AnyNumber ''2147483648''])
       = Inl (NumError ''ParseInt'' ''2147483648'' ErrRange)"
proof -
  have t8: "GetDataType (id2Field ints_parser 103) = DataType_Int8"
    by (simp add: ints_parser_def tiny_field_def GetDataType_def)
  have t16: "GetDataType (id2Field ints_parser 104) = DataType_Int16"
    by (simp add: ints_parser_def small_field_def GetDataType_def)
  have ta: "GetDataType (id2Field ints_parser 105) = DataType_Array"
    by (simp add: ints_parser_def tinies_field_def GetDataType_def)
  have te: "GetElementType (id2Field ints_parser 105) = DataType_Int8"
    by (simp add: ints_parser_def tinies_field_def GetElementType_def)
  have e: "DataType_Int8 = DataType_Int8 \<or> DataType_Int8 = DataType_Int16"
    by simp
  have l: "list_all2 (\<lambda>y n. \<exists>v. y = AnyNumber v \<and> ParseInt v 0 32 = (n, None))
       [AnyNumber ''1000'', AnyNumber ''100000''] [1000, 100000]"
    by (simp add: ParseInt_1000_32 ParseInt_100000_32)
  have ok: "\<exists>v n. AnyNumber ''1000'' = AnyNumber v \<and> ParseInt v 0 32 = (n, None)"
    using ParseInt_1000_32 by blast
  note inst1 = C10_narrow_array_elements[OF e t8 t16 ta te, of example_lib
      "[AnyNumber ''1000'', AnyNumber ''100000'']" "[1000, 100000]"]
  from inst1 l
  have 1: "arrayToFieldData example_lib [AnyNumber ''1000'', AnyNumber ''100000''] DataType_Int8
       = Inr (IntData [1000, 100000])"
    by simp
  from inst1
  have 2: "parseEntity example_lib ints_parser 103 (AnyNumber ''1000'')
       = Inl (NumError ''ParseInt'' ''1000'' ErrRange)"
    and 3: "parseEntity example_lib ints_parser 104 (AnyNumber ''100000'')
       = Inl (NumError ''ParseInt'' ''100000'' ErrRange)"
    and 4: "parseEntity example_lib ints_parser 105 (AnySlice [AnyNumber ''1000''])
       = Inr (V_ScalarField (IntData [1000]))"
    and 5: "parseEntity example_lib ints_parser 105 (AnySlice [AnyNumber ''2147483648''])
       = Inl (NumError ''ParseInt'' ''2147483648'' ErrRange)"
    by blast+
  note inst2 = C10_narrow_array_elements[OF e t8 t16 ta te, of example_lib
      "[AnyNumber ''1000'', AnyNumber ''2147483648'']"]
  have pre: "\<forall>y\<in>set [AnyNumber ''1000'']. \<exists>v n. y = AnyNumber v \<and> ParseInt v 0 32 = (n, None)"
    using ok by simp
  from inst2 have "\<forall>pre v n err post.
      [AnyNumber ''1000'', AnyNumber ''2147483648''] = pre @ AnyNumber v # post
      \<and> (\<forall>y\<in>set pre. \<exists>v n. y = AnyNumber v \<and> ParseInt v 0 32 = (n, None))
      \<and> ParseInt v 0 32 = (n, Some err)
      \<longrightarrow> arrayToFieldData example_lib [AnyNumber ''1000'', AnyNumber ''2147483648'']
            DataType_Int8 = Inl err"
    by blast
  then have "[AnyNumber ''1000'', AnyNumber ''2147483648'']
        = [AnyNumber ''1000''] @ AnyNumber ''2147483648'' # []
      \<and> (\<forall>y\<in>set [AnyNumber ''1000'']. \<exists>v n. y = AnyNumber v \<and> ParseInt v 0 32 = (n, None))
      \<and> ParseInt ''2147483648'' 0 32
          = (2147483647, Some (NumError ''ParseInt'' ''2147483648'' ErrRange))
      \<longrightarrow> arrayToFieldData example_lib [AnyNumber ''1000'', AnyNumber ''2147483648'']
            DataType_Int8 = Inl (NumError ''ParseInt'' ''2147483648'' ErrRange)"
    by (rule allE, elim allE)
  with pre ParseInt_2147483648_32
  have 6: "arrayToFieldData example_lib [AnyNumber ''1000'', AnyNumber ''2147483648'']
      DataType_Int8 = Inl (NumError ''ParseInt'' ''2147483648'' ErrRange)"
    by simp
  show ?thesis
    by (intro conjI t8 t16 ta te l 1 ok ParseInt_2147483648_32 6 2 3 4 5)
qed

section \<open>JSON fields\<close>

text \<open>
  C6, as the code has it. In a field of type JSON, a string is accepted if and only if
  \<open>json.Unmarshal\<close> accepts its bytes, and the value is then these bytes; otherwise the
  error of \<open>json.Unmarshal\<close> is returned. A map is accepted if and only if
  \<open>json.Marshal\<close> accepts it, that is if and only if every number it holds, at any
  depth, is empty or a number of the JSON grammar; the value is then the bytes of
  \<open>json.Marshal\<close>, and otherwise the error of \<open>json.Marshal\<close> is returned. Any other
  value is a type error.
\<close>

theorem C6_json_field:
  assumes "GetDataType (id2Field r fieldID) = DataType_JSON"
  shows "((\<exists>data. parseEntity L r fieldID (AnyString s) = Inr data) \<longleftrightarrow> Unmarshal L (bytes_of s) = None)
       \<and> (Unmarshal L (bytes_of s) = None \<longrightarrow>
            parseEntity L r fieldID (AnyString s) = Inr (V_bytes (bytes_of s)))
       \<and> (\<forall>err. Unmarshal L (bytes_of s) = Some err \<longrightarrow>
            parseEntity L r fieldID (AnyString s) = Inl err)
       \<and> ((\<exists>data. parseEntity L r fieldID (AnyMap mp) = Inr data)
            \<longleftrightarrow> (\<forall>k v. mp k = Some v \<longrightarrow> marshal_ok v))
       \<and> ((\<forall>k v. mp k = Some v \<longrightarrow> marshal_ok v) \<longrightarrow>
            Marshal L mp = Inr (MarshalBytes L mp)
            \<and> parseEntity L r fieldID (AnyMap mp) = Inr (V_bytes (MarshalBytes L mp)))
       \<and> (\<forall>k v. mp k = Some v \<and> \<not> marshal_ok v \<longrightarrow>
            Marshal L mp = Inl (MarshalError L mp)
            \<and> parseEntity L r fieldID (AnyMap mp) = Inl (MarshalError L mp))
       \<and> ((\<forall>v. obj \<noteq> AnyString v) \<and> (\<forall>m. obj \<noteq> AnyMap m) \<longrightarrow>
            parseEntity L r fieldID obj
              = Inl (ErrExpectedType DataType_JSON (GetName (id2Field r fieldID)) (go_type obj) obj))"
proof -
  have str: "parseEntity L r fieldID (AnyString s)
      = (case Unmarshal L (bytes_of s) of Some err \<Rightarrow> Inl err | None \<Rightarrow> Inr (V_bytes (bytes_of s)))"
    using assms by (simp add: parseEntity_def)
  have mp: "parseEntity L r fieldID (AnyMap mp)
      = (case Marshal L mp of Inl err \<Rightarrow> Inl err | Inr bs \<Rightarrow> Inr (V_bytes bs))"
    using assms by (simp add: parseEntity_def)
  have yes: "Marshal L mp = Inr (MarshalBytes L mp)
      \<and> parseEntity L r fieldID (AnyMap mp) = Inr (V_bytes (MarshalBytes L mp))"
    if "\<forall>k v. mp k = Some v \<longrightarrow> marshal_ok v"
  proof -
    have "marshal_ok (AnyMap mp)"
      unfolding marshal_ok_AnyMap by (rule that)
    then have "Marshal L mp = Inr (MarshalBytes L mp)"
      by (simp add: Marshal_def)
    then show ?thesis by (simp add: mp)
  qed
  have no: "Marshal L mp = Inl (MarshalError L mp)
      \<and> parseEntity L r fieldID (AnyMap mp) = Inl (MarshalError L mp)"
    if "\<not> (\<forall>k v. mp k = Some v \<longrightarrow> marshal_ok v)"
  proof -
    have "\<not> marshal_ok (AnyMap mp)"
      unfolding marshal_ok_AnyMap by (rule that)
    then have "Marshal L mp = Inl (MarshalError L mp)"
      by (simp add: Marshal_def)
    then show ?thesis by (simp add: mp)
  qed
  have 1: "(\<exists>data. parseEntity L r fieldID (AnyString s) = Inr data)
      \<longleftrightarrow> Unmarshal L (bytes_of s) = None"
    by (cases "Unmarshal L (bytes_of s)") (simp_all add: str)
  have 2: "Unmarshal L (bytes_of s) = None \<longrightarrow>
            parseEntity L r fieldID (AnyString s) = Inr (V_bytes (bytes_of s))"
    by (simp add: str)
  have 3: "\<forall>err. Unmarshal L (bytes_of s) = Some err \<longrightarrow>
            parseEntity L r fieldID (AnyString s) = Inl err"
    by (simp add: str)
  have 4: "(\<exists>data. parseEntity L r fieldID (AnyMap mp) = Inr data)
            \<longleftrightarrow> (\<forall>k v. mp k = Some v \<longrightarrow> marshal_ok v)"
  proof (cases "\<forall>k v. mp k = Some v \<longrightarrow> marshal_ok v")
    case True
    with yes[OF True] show ?thesis by simp
  next
    case False
    with no[OF False] show ?thesis by simp
  qed
  have 5: "(\<forall>k v. mp k = Some v \<longrightarrow> marshal_ok v) \<longrightarrow>
            Marshal L mp = Inr (MarshalBytes L mp)
            \<and> parseEntity L r fieldID (AnyMap mp) = Inr (V_bytes (MarshalBytes L mp))"
    using yes by blast
  have 6: "\<forall>k v. mp k = Some v \<and> \<not> marshal_ok v \<longrightarrow>
            Marshal L mp = Inl (MarshalError L mp)
            \<and> parseEntity L r fieldID (AnyMap mp) = Inl (MarshalError L mp)"
  proof (intro allI impI)
    fix k v
    assume "mp k = Some v \<and> \<not> marshal_ok v"
    then have "\<not> (\<forall>k v. mp k = Some v \<longrightarrow> marshal_ok v)" by blast
    then show "Marshal L mp = Inl (MarshalError L mp)
            \<and> parseEntity L r fieldID (AnyMap mp) = Inl (MarshalError L mp)"
      by (rule no)
  qed
  have 7: "(\<forall>v. obj \<noteq> AnyString v) \<and> (\<forall>m. obj \<noteq> AnyMap m) \<longrightarrow>
            parseEntity L r fieldID obj
              = Inl (ErrExpectedType DataType_JSON (GetName (id2Field r fieldID)) (go_type obj) obj)"
    using assms by (cases obj) (simp_all add: parseEntity_def wrapTypeError_def)
  show ?thesis
    by (intro conjI 1 2 3 4 5 6 7)
qed

text \<open>The text \<open>{bad json\<close>, the text and the map \<open>{"a":1}\<close>, and a number.\<close>

theorem C6_json_field_witness:
  \<open>GetDataType (id2Field meta_parser 102) = DataType_JSON
   \<and> Unmarshal example_lib (bytes_of ''{bad json'') = Some (LibError ''invalid character'')
   \<and> parseEntity example_lib meta_parser 102 (AnyString ''{bad json'')
       = Inl (LibError ''invalid character'')
   \<and> Unmarshal example_lib (bytes_of ''{"a":1}'') = None
   \<and> parseEntity example_lib meta_parser 102 (AnyString ''{"a":1}'')
       = Inr (V_bytes (bytes_of ''{"a":1}''))
   \<and> marshal_ok (AnyNumber ''1'')
   \<and> MarshalBytes example_lib [''a'' \<mapsto> AnyNumber ''1''] = bytes_of ''{"a":1}''
   \<and> parseEntity example_lib meta_parser 102 (AnyMap [''a'' \<mapsto> AnyNumber ''1''])
       = Inr (V_bytes (bytes_of ''{"a":1}''))
   \<and> parseEntity example_lib meta_parser 102 (AnyNumber ''1'')
       = Inl (ErrExpectedType DataType_JSON ''$meta'' ''json.Number'' (AnyNumber ''1''))\<close>
proof -
  have t: "GetDataType (id2Field meta_parser 102) = DataType_JSON"
    by (simp add: meta_parser_def meta_field_def GetDataType_def)
  have n: "GetName (id2Field meta_parser 102) = ''$meta''"
    by (simp add: meta_parser_def meta_field_def GetName_def)
  have bad: "Unmarshal example_lib (bytes_of ''{bad json'') = Some (LibError ''invalid character'')"
    by (simp add: example_lib_def bytes_of_def)
  have good: \<open>Unmarshal example_lib (bytes_of ''{"a":1}'') = None\<close>
    by (simp add: example_lib_def)
  have ok1: "marshal_ok (AnyNumber ''1'')"
    by (simp add: isValidNumber_1)
  have ok: "\<forall>k v. [''a'' \<mapsto> AnyNumber ''1''] k = Some v \<longrightarrow> marshal_ok v"
    using ok1 by (simp split: if_splits)
  have m: \<open>MarshalBytes example_lib [''a'' \<mapsto> AnyNumber ''1''] = bytes_of ''{"a":1}''\<close>
    by (simp add: example_lib_def)
  have o: "(\<forall>v. AnyNumber ''1'' \<noteq> AnyString v) \<and> (\<forall>m. AnyNumber ''1'' \<noteq> AnyMap m)"
    by simp
  note inst = C6_json_field[OF t, of example_lib "''{bad json''" "[''a'' \<mapsto> AnyNumber ''1'']"
      "AnyNumber ''1''"]
  from inst bad
  have 1: "parseEntity example_lib meta_parser 102 (AnyString ''{bad json'')
       = Inl (LibError ''invalid character'')"
    by blast
  from inst ok
  have "parseEntity example_lib meta_parser 102 (AnyMap [''a'' \<mapsto> AnyNumber ''1''])
       = Inr (V_bytes (MarshalBytes example_lib [''a'' \<mapsto> AnyNumber ''1'']))"
    by blast
  then have 2: \<open>parseEntity example_lib meta_parser 102 (AnyMap [''a'' \<mapsto> AnyNumber ''1''])
       = Inr (V_bytes (bytes_of ''{"a":1}''))\<close>
    by (simp only: m)
  from inst o
  have "parseEntity example_lib meta_parser 102 (AnyNumber ''1'')
       = Inl (ErrExpectedType DataType_JSON (GetName (id2Field meta_parser 102))
               (go_type (AnyNumber ''1'')) (AnyNumber ''1''))"
    by blast
  then have 3: "parseEntity example_lib meta_parser 102 (AnyNumber ''1'')
       = Inl (ErrExpectedType DataType_JSON ''$meta'' ''json.Number'' (AnyNumber ''1''))"
    by (simp add: n)
  from C6_json_field[OF t, of example_lib \<open>''{"a":1}''\<close>] good
  have 4: \<open>parseEntity example_lib meta_parser 102 (AnyString ''{"a":1}'')
       = Inr (V_bytes (bytes_of ''{"a":1}''))\<close>
    by blast
  show ?thesis
    by (intro conjI t bad 1 good 4 ok1 m 2 3)
qed

text \<open>
  C6 as stated fails on the map \<open>{"a": abc}\<close> whose value is the \<open>json.Number\<close> \<open>abc\<close>:
  it is a key/value map, \<open>abc\<close> is no number of the JSON grammar, \<open>json.Marshal\<close>
  refuses it and the map is not coerced.
\<close>

theorem C6_counterexample:
  "GetDataType (id2Field meta_parser 102) = DataType_JSON
   \<and> isValidNumber ''abc'' = False
   \<and> Marshal example_lib [''a'' \<mapsto> AnyNumber ''abc'']
       = Inl (LibError ''json: invalid number literal'')
   \<and> parseEntity example_lib meta_parser 102 (AnyMap [''a'' \<mapsto> AnyNumber ''abc''])
       = Inl (LibError ''json: invalid number literal'')"
proof -
  have t: "GetDataType (id2Field meta_parser 102) = DataType_JSON"
    by (simp add: meta_parser_def meta_field_def GetDataType_def)
  have p: "parseEntity example_lib meta_parser 102 (AnyMap [''a'' \<mapsto> AnyNumber ''abc''])
       = Inl (LibError ''json: invalid number literal'')"
    using t by (simp add: parseEntity_def Marshal_abc)
  from t isValidNumber_abc Marshal_abc p show ?thesis by simp
qed

section \<open>Vectors and their dimension\<close>

text \<open>
  The loops over the elements of a vector accept a list whose elements all parse. The
  dimension of a binary vector is compared with 8 times the length and that of a float
  vector with the length, both exactly; that of a half-precision vector is compared with
  the length divided by 2, so that a list of length \<open>2 * dim + 1\<close> passes as well.
\<close>

lemma byte_vec_list_all2:
  assumes "list_all2 (\<lambda>y n. \<exists>v. y = AnyNumber v \<and> ParseUint v 0 8 = (n, None)) xs ns"
  shows "byte_vec r fieldID xs vec = Inr (vec @ map word_of_int ns)"
  using assms
proof (induction xs ns arbitrary: vec rule: list_all2_induct)
  case Nil
  then show ?case by simp
next
  case (Cons y ys n ns)
  from Cons.hyps(1) obtain v where "y = AnyNumber v" "ParseUint v 0 8 = (n, None)"
    by blast
  then show ?case
    using Cons.IH[of "vec @ [word_of_int n]"] by simp
qed

lemma float_vec_list_all2:
  assumes "list_all2 (\<lambda>y x. \<exists>v. y = AnyNumber v \<and> ParseFloat L v 32 = Inr x) xs fs"
  shows "float_vec L r fieldID xs vec = Inr (vec @ map (float32 L) fs)"
  using assms
proof (induction xs fs arbitrary: vec rule: list_all2_induct)
  case Nil
  then show ?case by simp
next
  case (Cons y ys x fs)
  from Cons.hyps(1) obtain v where "y = AnyNumber v" "ParseFloat L v 32 = Inr x"
    by blast
  then show ?case
    using Cons.IH[of "vec @ [float32 L x]"] by simp
qed

lemma binary_vector_dim:
  assumes "GetDataType (id2Field r fieldID) = DataType_BinaryVector"
  shows "int (length arr) * 8 \<noteq> dim r \<Longrightarrow>
           parseEntity L r fieldID (AnySlice arr)
             = Inl (ErrExpectedDim (dim r) (GetName (id2Field r fieldID)) DataType_BinaryVector
                      (int (length arr) * 8))"
    and "int (length arr) * 8 = dim r \<Longrightarrow>
         list_all2 (\<lambda>y n. \<exists>v. y = AnyNumber v \<and> ParseUint v 0 8 = (n, None)) arr ns \<Longrightarrow>
           parseEntity L r fieldID (AnySlice arr) = Inr (V_bytes (map word_of_int ns))"
  using assms by (simp_all add: parseEntity_def wrapDimError_def byte_vec_list_all2)

lemma float_vector_dim:
  assumes "GetDataType (id2Field r fieldID) = DataType_FloatVector"
  shows "int (length arr) \<noteq> dim r \<Longrightarrow>
           parseEntity L r fieldID (AnySlice arr)
             = Inl (ErrExpectedDim (dim r) (GetName (id2Field r fieldID)) DataType_FloatVector
                      (int (length arr)))"
    and "int (length arr) = dim r \<Longrightarrow>
         list_all2 (\<lambda>y x. \<exists>v. y = AnyNumber v \<and> ParseFloat L v 32 = Inr x) arr fs \<Longrightarrow>
           parseEntity L r fieldID (AnySlice arr) = Inr (V_float32s (map (float32 L) fs))"
  using assms by (simp_all add: parseEntity_def wrapDimError_def float_vec_list_all2)

lemma float16_vector_dim:
  assumes "GetDataType (id2Field r fieldID) = DataType_Float16Vector"
  shows "int (length arr) div 2 \<noteq> dim r \<Longrightarrow>
           parseEntity L r fieldID (AnySlice arr)
             = Inl (ErrExpectedDim (dim r) (GetName (id2Field r fieldID)) DataType_Float16Vector
                      (int (length arr) div 2))"
    and "int (length arr) div 2 = dim r \<Longrightarrow>
         list_all2 (\<lambda>y n. \<exists>v. y = AnyNumber v \<and> ParseUint v 0 8 = (n, None)) arr ns \<Longrightarrow>
           parseEntity L r fieldID (AnySlice arr) = Inr (V_bytes (map word_of_int ns))"
  using assms by (simp_all add: parseEntity_def wrapDimError_def byte_vec_list_all2)

lemma float16_vector_odd_length:
  assumes "GetDataType (id2Field r fieldID) = DataType_Float16Vector"
    and "int (length arr) = 2 * dim r + 1"
    and "list_all2 (\<lambda>y n. \<exists>v. y = AnyNumber v \<and> ParseUint v 0 8 = (n, None)) arr ns"
  shows "parseEntity L r fieldID (AnySlice arr) = Inr (V_bytes (map word_of_int ns))"
proof -
  from assms(2) have "int (length arr) div 2 = dim r" by simp
  with float16_vector_dim(2)[OF assms(1) _ assms(3), of L] show ?thesis
    by simp
qed

text \<open>
  C1 at a half-precision vector field of dimension 1: the list \<open>[1, 2, 3]\<close> of length 3,
  which is not twice the dimension, is accepted, and all three bytes are kept. The check
  divides the length by 2, which drops the remainder.
\<close>

theorem C1_float16_odd_length_accepted:
  "NewRowParser half_schema = Inr half_parser
   \<and> GetDataType (id2Field half_parser 101) = DataType_Float16Vector
   \<and> dim half_parser = 1
   \<and> length [AnyNumber ''1'', AnyNumber ''2'', AnyNumber ''3''] = 3
   \<and> parseEntity example_lib half_parser 101
        (AnySlice [AnyNumber ''1'', AnyNumber ''2'', AnyNumber ''3''])
       = Inr (V_bytes [1, 2, 3])"
proof -
  have t: "GetDataType (id2Field half_parser 101) = DataType_Float16Vector"
    by (simp add: half_parser_def half_field_def GetDataType_def)
  have d: "dim half_parser = 1"
    by (simp add: half_parser_def)
  have l: "list_all2 (\<lambda>y n. \<exists>v. y = AnyNumber v \<and> ParseUint v 0 8 = (n, None))
      [AnyNumber ''1'', AnyNumber ''2'', AnyNumber ''3''] [1, 2, 3]"
    by (simp add: ParseUint_1_8 ParseUint_2_8 ParseUint_3_8)
  have "parseEntity example_lib half_parser 101
        (AnySlice [AnyNumber ''1'', AnyNumber ''2'', AnyNumber ''3''])
       = Inr (V_bytes (map word_of_int [1, 2, 3]))"
    using float16_vector_odd_length[OF t _ l, of example_lib] by (simp add: d)
  then have "parseEntity example_lib half_parser 101
        (AnySlice [AnyNumber ''1'', AnyNumber ''2'', AnyNumber ''3''])
       = Inr (V_bytes [1, 2, 3])"
    by simp
  with NewRowParser_half t d show ?thesis by simp
qed

section \<open>The loops of Parse\<close>

text \<open>One turn of the first loop: the error of the key, or the next state.\<close>

lemma range_stringMap_Cons:
  "range_stringMap L r m (k # ks) st =
     (case key_error L r m k of
        Some err \<Rightarrow> Inl err
      | None \<Rightarrow> range_stringMap L r m ks (key_step L r m k st))"
proof (cases st)
  case (Pair row dyn)
  show ?thesis
  proof (cases "m k")
    case None
    then show ?thesis by (simp add: Pair key_error_def key_step_def)
  next
    case (Some v)
    note v = this
    show ?thesis
    proof (cases "name2FieldID r k")
      case None
      then show ?thesis by (simp add: Pair v key_error_def key_step_def)
    next
      case (Some i)
      then show ?thesis
        by (cases "parseEntity L r i v") (simp_all add: Pair v key_error_def key_step_def)
    qed
  qed
qed

lemma range_stringMap_first_error:
  assumes "\<forall>k'\<in>set pre. key_error L r m k' = None" and "key_error L r m k = Some err"
  shows "range_stringMap L r m (pre @ k # post) st = Inl err"
  using assms(1)
proof (induction pre arbitrary: st)
  case Nil
  show ?case using assms(2) by (simp add: range_stringMap_Cons)
next
  case (Cons a pre)
  then show ?case by (simp add: range_stringMap_Cons)
qed



lemma range_stringMap_Inr_keys:
  assumes "range_stringMap L r m ks st = Inr st'"
  shows "\<forall>k\<in>set ks. key_error L r m k = None"
  using assms
proof (induction ks arbitrary: st)
  case Nil
  show ?case by simp
next
  case (Cons k ks)
  show ?case
  proof (cases "key_error L r m k")
    case None
    with Cons.prems have "range_stringMap L r m ks (key_step L r m k st) = Inr st'"
      by (simp add: range_stringMap_Cons)
    from Cons.IH[OF this] None show ?thesis by simp
  next
    case (Some e)
    with Cons.prems show ?thesis by (simp add: range_stringMap_Cons)
  qed
qed

text \<open>The dynamic values after the loop.\<close>

lemma range_stringMap_dynamicValues:
  assumes "range_stringMap L r m ks (row, dyn) = Inr (row', dyn')"
  shows "dyn' = (\<lambda>k. if k \<in> set ks \<and> m k \<noteq> None \<and> name2FieldID r k = None then m k
                     else dyn k)"
  using assms
proof (induction ks arbitrary: row dyn)
  case Nil
  then show ?case by simp
next
  case (Cons k ks)
  from Cons.prems have e: "key_error L r m k = None"
    by (simp add: range_stringMap_Cons split: option.splits)
  obtain row1 dyn1 where st: "key_step L r m k (row, dyn) = (row1, dyn1)"
    by (cases "key_step L r m k (row, dyn)")
  have "snd (key_step L r m k (row, dyn))
      = (\<lambda>k'. if k' = k \<and> m k \<noteq> None \<and> name2FieldID r k = None then m k else dyn k')"
    by (auto simp: key_step_def fun_eq_iff split: option.splits sum.splits)
  with st have dyn1: "dyn1 = (\<lambda>k'. if k' = k \<and> m k \<noteq> None \<and> name2FieldID r k = None then m k
                            else dyn k')"
    by simp
  from Cons.prems e st have "range_stringMap L r m ks (row1, dyn1) = Inr (row', dyn')"
    by (simp add: range_stringMap_Cons)
  from Cons.IH[OF this]
  have "dyn' = (\<lambda>k'. if k' \<in> set ks \<and> m k' \<noteq> None \<and> name2FieldID r k' = None then m k'
                      else dyn1 k')" .
  also have "\<dots> = (\<lambda>k'. if k' \<in> set (k # ks) \<and> m k' \<noteq> None \<and> name2FieldID r k' = None
                           then m k' else dyn k')"
  proof (rule ext)
    fix k'
    show "(if k' \<in> set ks \<and> m k' \<noteq> None \<and> name2FieldID r k' = None then m k' else dyn1 k')
        = (if k' \<in> set (k # ks) \<and> m k' \<noteq> None \<and> name2FieldID r k' = None
           then m k' else dyn k')"
      unfolding dyn1 by (cases "k' = k") auto
  qed
  finally show ?case .
qed





section \<open>Decoding a record\<close>

lemma Parse_AnyMap:
  "Parse L r keys names (AnyMap m) =
     (if m (GetName (pkField r)) \<noteq> None \<and> GetAutoID (pkField r)
      then Inl (ErrAutoGenerated (GetName (pkField r)))
      else case range_stringMap L r m keys (Map.empty, Map.empty) of
             Inl err \<Rightarrow> Inl err
           | Inr (row, dynamicValues) \<Rightarrow>
               (case range_name2FieldID r row names of
                  Some err \<Rightarrow> Inl err
                | None \<Rightarrow>
                    if dynamicField r = None then Inr row
                    else combineDynamicRow L r dynamicValues row))"
  by (simp add: Parse_def)

lemma Parse_key_error:
  assumes "key_error L r m k = Some err" and "k \<in> set keys"
  shows "\<exists>err'. Parse L r keys names (AnyMap m) = Inl err'"
proof (cases "range_stringMap L r m keys (Map.empty, Map.empty)")
  case (Inl e)
  then show ?thesis by (simp add: Parse_AnyMap)
next
  case (Inr st)
  from range_stringMap_Inr_keys[OF this] assms show ?thesis by auto
qed

lemma Parse_first_key_error:
  assumes "key_error L r m k = Some err" and "k \<in> set keys"
    and "\<forall>k'\<in>set (takeWhile (\<lambda>k'. k' \<noteq> k) keys). key_error L r m k' = None"
    and "\<not> (m (GetName (pkField r)) \<noteq> None \<and> GetAutoID (pkField r))"
  shows "Parse L r keys names (AnyMap m) = Inl err"
proof -
  from assms(2) have "dropWhile (\<lambda>k'. k' \<noteq> k) keys \<noteq> []"
    by (simp add: dropWhile_eq_Nil_conv)
  then obtain k0 post where dw: "dropWhile (\<lambda>k'. k' \<noteq> k) keys = k0 # post"
    by (cases "dropWhile (\<lambda>k'. k' \<noteq> k) keys") auto
  from hd_dropWhile[of "\<lambda>k'. k' \<noteq> k" keys] dw have "k0 = k" by simp
  with dw have "keys = takeWhile (\<lambda>k'. k' \<noteq> k) keys @ k # post"
    using takeWhile_dropWhile_id[of "\<lambda>k'. k' \<noteq> k" keys] by simp
  with range_stringMap_first_error[OF assms(3,1), of post "(Map.empty, Map.empty)"]
  have "range_stringMap L r m keys (Map.empty, Map.empty) = Inl err"
    by simp
  with assms(4) show ?thesis
    by (auto simp: Parse_AnyMap)
qed

text \<open>
  C7, as the code has it. When the schema has no dynamic field, a record with a key that
  is no explicit field name is always rejected: no row is returned. The error is the one
  naming that key as not defined when the key is reached first, that is when the
  auto-generated primary key is not supplied and every key visited before it raises no
  error; otherwise the error of an earlier key, or of the primary key check, is returned.
\<close>

theorem C7_undefined_field:
  assumes "dynamicField r = None"
    and "visits keys stringMap"
    and "stringMap key = Some v"
    and "name2FieldID r key = None"
  shows "(\<exists>err. Parse L r keys names (AnyMap stringMap) = Inl err)
       \<and> (\<not> (stringMap (GetName (pkField r)) \<noteq> None \<and> GetAutoID (pkField r))
            \<and> (\<forall>k\<in>set (takeWhile (\<lambda>k. k \<noteq> key) keys). key_error L r stringMap k = None)
          \<longrightarrow> Parse L r keys names (AnyMap stringMap) = Inl (ErrNotDefined key))"
proof -
  have e: "key_error L r stringMap key = Some (ErrNotDefined key)"
    using assms(1,3,4) by (simp add: key_error_def)
  have k: "key \<in> set keys"
    using assms(2,3) by (auto simp: visits_def)
  from Parse_key_error[OF e k] Parse_first_key_error[OF e k]
  show ?thesis by blast
qed

text \<open>
  The record with a string under \<open>id\<close> and the undeclared key \<open>zzz\<close>: rejected in both
  orders, with the error naming \<open>zzz\<close> when \<open>zzz\<close> is visited first.
\<close>

theorem C7_undefined_field_witness:
  "dynamicField plain_parser = None
   \<and> visits [''id'', ''zzz''] record_zzz
   \<and> visits [''zzz'', ''id''] record_zzz
   \<and> record_zzz ''zzz'' = Some (AnyNumber ''1'')
   \<and> name2FieldID plain_parser ''zzz'' = None
   \<and> (\<exists>err. Parse example_lib plain_parser [''id'', ''zzz''] [''id'', ''vector''] (AnyMap record_zzz)
          = Inl err)
   \<and> Parse example_lib plain_parser [''zzz'', ''id''] [''id'', ''vector''] (AnyMap record_zzz)
       = Inl (ErrNotDefined ''zzz'')"
proof -
  have d: "dynamicField plain_parser = None"
    by (simp add: plain_parser_def)
  have dom: "dom record_zzz = {''id'', ''zzz''}"
    by (auto simp: record_zzz_def)
  have v1: "visits [''id'', ''zzz''] record_zzz"
    by (simp add: visits_def dom)
  have v2: "visits [''zzz'', ''id''] record_zzz"
    by (auto simp: visits_def dom)
  have z: "record_zzz ''zzz'' = Some (AnyNumber ''1'')"
    by (simp add: record_zzz_def)
  have n: "name2FieldID plain_parser ''zzz'' = None"
    by (simp add: plain_parser_def)
  have pk: "\<not> (record_zzz (GetName (pkField plain_parser)) \<noteq> None
      \<and> GetAutoID (pkField plain_parser))"
    by (simp add: plain_parser_def GetAutoID_def id_field_def)
  from C7_undefined_field[OF d v1 z n, of example_lib "[''id'', ''vector'']"]
  have 1: "\<exists>err. Parse example_lib plain_parser [''id'', ''zzz''] [''id'', ''vector'']
      (AnyMap record_zzz) = Inl err"
    by blast
  from C7_undefined_field[OF d v2 z n, of example_lib "[''id'', ''vector'']"] pk
  have 2: "Parse example_lib plain_parser [''zzz'', ''id''] [''id'', ''vector''] (AnyMap record_zzz)
       = Inl (ErrNotDefined ''zzz'')"
    by auto
  from d v1 v2 z n 1 2 show ?thesis by blast
qed

text \<open>
  C7 as stated fails on the same record when \<open>id\<close> is visited first: the error returned
  is the type error of \<open>id\<close>, which does not name the undefined field \<open>zzz\<close>.
\<close>

theorem C7_counterexample:
  "dynamicField plain_parser = None
   \<and> visits [''id'', ''zzz''] record_zzz
   \<and> record_zzz ''zzz'' = Some (AnyNumber ''1'')
   \<and> name2FieldID plain_parser ''zzz'' = None
   \<and> Parse example_lib plain_parser [''id'', ''zzz''] [''id'', ''vector''] (AnyMap record_zzz)
       = Inl (ErrExpectedType DataType_Int64 ''id'' ''string'' (AnyString ''abc''))"
proof -
  have d: "dynamicField plain_parser = None"
    by (simp add: plain_parser_def)
  have dom: "dom record_zzz = {''id'', ''zzz''}"
    by (auto simp: record_zzz_def)
  have v1: "visits [''id'', ''zzz''] record_zzz"
    by (simp add: visits_def dom)
  have z: "record_zzz ''zzz'' = Some (AnyNumber ''1'')"
    by (simp add: record_zzz_def)
  have n: "name2FieldID plain_parser ''zzz'' = None"
    by (simp add: plain_parser_def)
  have pk: "\<not> (record_zzz (GetName (pkField plain_parser)) \<noteq> None
      \<and> GetAutoID (pkField plain_parser))"
    by (simp add: plain_parser_def GetAutoID_def id_field_def)
  have i: "record_zzz ''id'' = Some (AnyString ''abc'')"
    by (simp add: record_zzz_def)
  have ni: "name2FieldID plain_parser ''id'' = Some 100"
    by (simp add: plain_parser_def)
  have p: "parseEntity example_lib plain_parser 100 (AnyString ''abc'')
      = Inl (ErrExpectedType DataType_Int64 ''id'' ''string'' (AnyString ''abc''))"
    by (simp add: parseEntity_def parse_int_field_def wrapTypeError_def plain_parser_def
        id_field_def GetDataType_def GetName_def)
  have e: "key_error example_lib plain_parser record_zzz ''id''
      = Some (ErrExpectedType DataType_Int64 ''id'' ''string'' (AnyString ''abc''))"
    by (simp add: key_error_def i ni p)
  have "Parse example_lib plain_parser [''id'', ''zzz''] [''id'', ''vector''] (AnyMap record_zzz)
       = Inl (ErrExpectedType DataType_Int64 ''id'' ''string'' (AnyString ''abc''))"
    using pk by (auto simp: Parse_AnyMap range_stringMap_Cons e)
  with d v1 z n show ?thesis by blast
qed

section \<open>Missing fields\<close>









section \<open>The dynamic field\<close>

lemma parseEntity_AnyMap_Inr:
  assumes "parseEntity L r fieldID (AnyMap mp) = Inr data"
  shows "\<exists>bs. Marshal L mp = Inr bs \<and> data = V_bytes bs"
proof (cases "GetDataType (id2Field r fieldID)")
  case DataType_JSON
  with assms show ?thesis
    by (cases "Marshal L mp") (simp_all add: parseEntity_def)
qed (use assms in \<open>simp_all add: parseEntity_def parse_int_field_def parse_float_field_def
      parse_string_field_def\<close>)

lemma combineDynamicRow_Inr:
  assumes "combineDynamicRow L r dynamicValues row0 = Inr row"
  shows "if dynamicValues \<noteq> Map.empty
         then \<exists>bs. Marshal L dynamicValues = Inr bs
                \<and> row = row0(GetFieldID (dynamicField r) \<mapsto> V_bytes bs)
         else row = row0(GetFieldID (dynamicField r) \<mapsto> V_string ''{}'')"
proof (cases "dynamicValues = Map.empty")
  case True
  with assms show ?thesis by (simp add: combineDynamicRow_def)
next
  case False
  with assms obtain data where
    p: "parseEntity L r (GetFieldID (dynamicField r)) (AnyMap dynamicValues) = Inr data"
    and row: "row = row0(GetFieldID (dynamicField r) \<mapsto> data)"
    by (cases "parseEntity L r (GetFieldID (dynamicField r)) (AnyMap dynamicValues)")
      (auto simp: combineDynamicRow_def Let_def)
  from parseEntity_AnyMap_Inr[OF p] row False show ?thesis by auto
qed

lemma Parse_Inr:
  assumes "Parse L r keys names (AnyMap m) = Inr row"
  obtains row0 dynamicValues where
    "\<not> (m (GetName (pkField r)) \<noteq> None \<and> GetAutoID (pkField r))"
    "range_stringMap L r m keys (Map.empty, Map.empty) = Inr (row0, dynamicValues)"
    "range_name2FieldID r row0 names = None"
    "if dynamicField r = None then row = row0
     else combineDynamicRow L r dynamicValues row0 = Inr row"
proof -
  from assms have pk: "\<not> (m (GetName (pkField r)) \<noteq> None \<and> GetAutoID (pkField r))"
    by (auto simp: Parse_AnyMap split: if_splits)
  with assms obtain row0 dynamicValues where
    run: "range_stringMap L r m keys (Map.empty, Map.empty) = Inr (row0, dynamicValues)"
    by (cases "range_stringMap L r m keys (Map.empty, Map.empty)")
      (auto simp: Parse_AnyMap)
  from assms pk run have miss: "range_name2FieldID r row0 names = None"
    by (cases "range_name2FieldID r row0 names") (auto simp: Parse_AnyMap)
  from assms pk run miss
  have "if dynamicField r = None then row = row0
     else combineDynamicRow L r dynamicValues row0 = Inr row"
    by (auto simp: Parse_AnyMap)
  with pk run miss show ?thesis by (rule that)
qed

text \<open>The example parser with the dynamic field \<open>$meta\<close>, on the example records.\<close>

lemma meta_parser_id: "parseEntity L meta_parser 100 (AnyNumber ''1'') = Inr (V_int64 1)"
  by (simp add: parseEntity_def parse_int_field_def meta_parser_def id_field_def GetDataType_def
      ParseInt_1_64)

lemma meta_parser_vector:
  "parseEntity L meta_parser 101 (AnySlice [AnyNumber ''255'']) = Inr (V_bytes [255])"
  by (simp add: parseEntity_def meta_parser_def vector_field_def GetDataType_def
      ParseUint_255_8)

lemma meta_parser_x:
  \<open>parseEntity example_lib meta_parser 102 (AnyMap [''x'' \<mapsto> AnyNumber ''8''])
     = Inr (V_bytes (bytes_of ''{"x":8}''))\<close>
  by (simp add: parseEntity_def meta_parser_def meta_field_def GetDataType_def Marshal_x)

lemma meta_parser_fields:
  "name2FieldID meta_parser ''id'' = Some 100"
  "name2FieldID meta_parser ''vector'' = Some 101"
  "name2FieldID meta_parser ''x'' = None"
  "name2FieldID meta_parser ''$meta'' = None"
  "dynamicField meta_parser = Some meta_field"
  "GetName (Some meta_field) = ''$meta''"
  "GetFieldID (Some meta_field) = 102"
  "\<not> (m (GetName (pkField meta_parser)) \<noteq> None \<and> GetAutoID (pkField meta_parser))"
  by (simp_all add: meta_parser_def meta_field_def id_field_def GetName_def GetFieldID_def
      GetAutoID_def)


lemma Parse_record_x:
  \<open>Parse example_lib meta_parser [''id'', ''vector'', ''x''] [''id'', ''vector'']
     (AnyMap record_x)
   = Inr [100 \<mapsto> V_int64 1, 101 \<mapsto> V_bytes [255], 102 \<mapsto> V_bytes (bytes_of ''{"x":8}'')]\<close>
proof -
  have m: "record_x ''id'' = Some (AnyNumber ''1'')"
      "record_x ''vector'' = Some (AnySlice [AnyNumber ''255''])"
      "record_x ''x'' = Some (AnyNumber ''8'')"
    by (simp_all add: record_x_def)
  have run: "range_stringMap example_lib meta_parser record_x [''id'', ''vector'', ''x'']
      (Map.empty, Map.empty)
      = Inr ([100 \<mapsto> V_int64 1, 101 \<mapsto> V_bytes [255]], [''x'' \<mapsto> AnyNumber ''8''])"
    by (simp add: m meta_parser_fields meta_parser_id meta_parser_vector)
  have miss: "range_name2FieldID meta_parser [100 \<mapsto> V_int64 1, 101 \<mapsto> V_bytes [255]]
      [''id'', ''vector''] = None"
    by (simp add: meta_parser_fields)
  have comb: \<open>combineDynamicRow example_lib meta_parser [''x'' \<mapsto> AnyNumber ''8'']
      [100 \<mapsto> V_int64 1, 101 \<mapsto> V_bytes [255]]
      = Inr [100 \<mapsto> V_int64 1, 101 \<mapsto> V_bytes [255], 102 \<mapsto> V_bytes (bytes_of ''{"x":8}'')]\<close>
    by (simp add: combineDynamicRow_def meta_parser_fields meta_parser_x)
  show ?thesis
    unfolding Parse_AnyMap run if_not_P[OF meta_parser_fields(8)[of record_x]]
      sum.case prod.case miss option.case
    by (simp add: comb meta_parser_fields(5))
qed

lemma Parse_record_declared:
  "Parse example_lib meta_parser [''id'', ''vector''] [''id'', ''vector'']
     (AnyMap record_declared)
   = Inr [100 \<mapsto> V_int64 1, 101 \<mapsto> V_bytes [255], 102 \<mapsto> V_string ''{}'']"
proof -
  have m: "record_declared ''id'' = Some (AnyNumber ''1'')"
      "record_declared ''vector'' = Some (AnySlice [AnyNumber ''255''])"
    by (simp_all add: record_declared_def)
  have run: "range_stringMap example_lib meta_parser record_declared [''id'', ''vector'']
      (Map.empty, Map.empty)
      = Inr ([100 \<mapsto> V_int64 1, 101 \<mapsto> V_bytes [255]], Map.empty)"
    by (simp add: m meta_parser_fields meta_parser_id meta_parser_vector)
  have miss: "range_name2FieldID meta_parser [100 \<mapsto> V_int64 1, 101 \<mapsto> V_bytes [255]]
      [''id'', ''vector''] = None"
    by (simp add: meta_parser_fields)
  have comb: "combineDynamicRow example_lib meta_parser Map.empty
      [100 \<mapsto> V_int64 1, 101 \<mapsto> V_bytes [255]]
      = Inr [100 \<mapsto> V_int64 1, 101 \<mapsto> V_bytes [255], 102 \<mapsto> V_string ''{}'']"
    by (simp add: combineDynamicRow_def meta_parser_fields)
  show ?thesis
    unfolding Parse_AnyMap run if_not_P[OF meta_parser_fields(8)[of record_declared]]
      sum.case prod.case miss option.case
    by (simp add: comb meta_parser_fields(5))
qed

lemma meta_schema_names: "Name ` set (Fields meta_schema) = {''id'', ''vector'', ''$meta''}"
  by (simp add: meta_schema_def id_field_def vector_field_def meta_field_def)

lemma meta_schema_dynamic: "GetDynamicField meta_schema = Some meta_field"
  by (simp add: GetDynamicField_def meta_schema_def id_field_def vector_field_def meta_field_def)

text \<open>
  C2. Let the schema have a dynamic field \<open>d\<close> (named \<open>$meta\<close> or otherwise) and let the
  record be a map. (1) If the record holds the dynamic field's own name as a key, \<open>Parse\<close>
  returns an error. (2) If \<open>Parse\<close> returns a row and the record has keys that are no
  declared field names, the row maps the dynamic field's ID to the bytes that
  \<open>json.Marshal\<close> gives for the map of exactly these pairs. (3) If it returns a row and
  there are no such keys, the row maps the dynamic field's ID to the string \<open>{}\<close>.
\<close>

theorem C2_dynamic_field:
  assumes "NewRowParser schema = Inr r"
    and "GetDynamicField schema = Some d"
    and "visits keys stringMap"
  shows "(stringMap (Name d) \<noteq> None \<longrightarrow>
            (\<exists>err. Parse L r keys names (AnyMap stringMap) = Inl err))
       \<and> (\<forall>row. Parse L r keys names (AnyMap stringMap) = Inr row \<longrightarrow>
            (if stringMap |` (- Name ` set (Fields schema)) \<noteq> Map.empty
             then \<exists>bs. Marshal L (stringMap |` (- Name ` set (Fields schema))) = Inr bs
                    \<and> row (FieldID d) = Some (V_bytes bs)
             else row (FieldID d) = Some (V_string ''{}'')))"
proof -
  from assms(1) obtain pk where pk: "GetPrimaryFieldSchema schema = Inr pk"
    and pkf: "pkField r = Some pk"
    and dyf: "dynamicField r = GetDynamicField schema"
    by (rule NewRowParser_Inr)
  have dom: "dom (name2FieldID r) = explicit_names schema pk"
    using assms(1) pk by (rule name2FieldID_dom)
  have keys: "set keys = dom stringMap"
    using assms(3) by (simp add: visits_def)
  have dynf: "dynamicField r = Some d"
    using dyf assms(2) by simp
  have nd: "name2FieldID r (Name d) = None"
  proof -
    have "Name d \<notin> explicit_names schema pk"
      by (simp add: explicit_names_def assms(2))
    with dom show ?thesis by blast
  qed
  have 1: "\<exists>err. Parse L r keys names (AnyMap stringMap) = Inl err"
    if "stringMap (Name d) \<noteq> None"
  proof -
    from that obtain v where v: "stringMap (Name d) = Some v" by blast
    have e: "key_error L r stringMap (Name d) = Some (ErrDynamicExplicit (Name d))"
      by (simp add: key_error_def v nd dynf GetName_def)
    have "Name d \<in> set keys"
      using keys v by blast
    with e show ?thesis by (rule Parse_key_error)
  qed
  have 2: "if stringMap |` (- Name ` set (Fields schema)) \<noteq> Map.empty
             then \<exists>bs. Marshal L (stringMap |` (- Name ` set (Fields schema))) = Inr bs
                    \<and> row (FieldID d) = Some (V_bytes bs)
             else row (FieldID d) = Some (V_string ''{}'')"
    if ok: "Parse L r keys names (AnyMap stringMap) = Inr row" for row
  proof -
    from ok obtain row0 dynamicValues where
      npk: "\<not> (stringMap (GetName (pkField r)) \<noteq> None \<and> GetAutoID (pkField r))"
      and run: "range_stringMap L r stringMap keys (Map.empty, Map.empty)
                  = Inr (row0, dynamicValues)"
      and comb: "if dynamicField r = None then row = row0
                 else combineDynamicRow L r dynamicValues row0 = Inr row"
      by (rule Parse_Inr)
    from comb dynf have comb: "combineDynamicRow L r dynamicValues row0 = Inr row"
      by simp
    have nometa: "stringMap (Name d) = None"
      using 1 ok by (cases "stringMap (Name d)") auto
    have nopk: "AutoID pk \<Longrightarrow> stringMap (Name pk) = None"
      using npk by (auto simp: pkf GetName_def GetAutoID_def)
    have dv: "dynamicValues = (\<lambda>k. if k \<in> set keys \<and> stringMap k \<noteq> None
                  \<and> name2FieldID r k = None then stringMap k else None)"
      using range_stringMap_dynamicValues[OF run] .
    have "dynamicValues k = (stringMap |` (- Name ` set (Fields schema))) k" for k
    proof (cases "k \<in> Name ` set (Fields schema)")
      case True
      have "stringMap k = None \<or> name2FieldID r k \<noteq> None"
      proof (cases "k \<in> explicit_names schema pk")
        case True
        with dom show ?thesis by blast
      next
        case False
        with True have "(AutoID pk \<and> k = Name pk) \<or> k = Name d"
          by (auto simp: explicit_names_def assms(2) split: if_splits)
        with nometa nopk show ?thesis by blast
      qed
      with True show ?thesis
        by (auto simp: dv restrict_map_def)
    next
      case False
      then have "k \<notin> explicit_names schema pk"
        by (simp add: explicit_names_def)
      with dom have "name2FieldID r k = None" by blast
      with False keys show ?thesis
        by (auto simp: dv restrict_map_def)
    qed
    then have eq: "dynamicValues = stringMap |` (- Name ` set (Fields schema))"
      by (rule ext)
    have fid: "GetFieldID (dynamicField r) = FieldID d"
      by (simp add: dynf GetFieldID_def)
    from combineDynamicRow_Inr[OF comb] show ?thesis
      unfolding eq fid by (auto split: if_splits)
  qed
  from 1 2 show ?thesis by blast
qed


text \<open>
  The schema with \<open>$meta\<close>: the record naming \<open>$meta\<close> is rejected; the record with the
  extra pair \<open>x: 8\<close> gives \<open>{"x":8}\<close> under ID 102; the record without extra keys gives
  \<open>{}\<close>.
\<close>

theorem C2_dynamic_field_witness:
  \<open>NewRowParser meta_schema = Inr meta_parser
   \<and> GetDynamicField meta_schema = Some meta_field
   \<and> Name meta_field = ''$meta'' \<and> FieldID meta_field = 102
   \<and> visits [''id'', ''vector'', ''$meta''] record_meta
   \<and> record_meta ''$meta'' \<noteq> None
   \<and> (\<exists>err. Parse example_lib meta_parser [''id'', ''vector'', ''$meta''] [''id'', ''vector'']
         (AnyMap record_meta) = Inl err)
   \<and> visits [''id'', ''vector'', ''x''] record_x
   \<and> Marshal example_lib (record_x |` (- Name ` set (Fields meta_schema)))
       = Inr (bytes_of ''{"x":8}'')
   \<and> (\<exists>row. Parse example_lib meta_parser [''id'', ''vector'', ''x''] [''id'', ''vector'']
         (AnyMap record_x) = Inr row
       \<and> row 102 = Some (V_bytes (bytes_of ''{"x":8}'')))
   \<and> visits [''id'', ''vector''] record_declared
   \<and> record_declared |` (- Name ` set (Fields meta_schema)) = Map.empty
   \<and> (\<exists>row. Parse example_lib meta_parser [''id'', ''vector''] [''id'', ''vector'']
         (AnyMap record_declared) = Inr row
       \<and> row 102 = Some (V_string ''{}''))\<close>
proof -
  have f: "Name meta_field = ''$meta''" "FieldID meta_field = 102"
    by (simp_all add: meta_field_def)
  have vm: "visits [''id'', ''vector'', ''$meta''] record_meta"
    by (auto simp: visits_def record_meta_def)
  have vx: "visits [''id'', ''vector'', ''x''] record_x"
    by (auto simp: visits_def record_x_def)
  have vd: "visits [''id'', ''vector''] record_declared"
    by (auto simp: visits_def record_declared_def)
  have rm: "record_meta ''$meta'' \<noteq> None"
    by (simp add: record_meta_def)
  have rm': "record_meta (Name meta_field) \<noteq> None"
    by (simp add: record_meta_def meta_field_def)
  from C2_dynamic_field[OF NewRowParser_meta meta_schema_dynamic vm, of example_lib
      "[''id'', ''vector'']"] rm'
  have 1: "\<exists>err. Parse example_lib meta_parser [''id'', ''vector'', ''$meta''] [''id'', ''vector'']
         (AnyMap record_meta) = Inl err"
    by blast
  let ?ex = "record_x |` (- Name ` set (Fields meta_schema))"
  have exx: "?ex ''x'' = Some (AnyNumber ''8'')"
    by (simp add: meta_schema_names record_x_def)
  have "?ex = [''x'' \<mapsto> AnyNumber ''8'']"
    by (rule ext) (simp add: meta_schema_names record_x_def restrict_map_def)
  then have mx: \<open>Marshal example_lib ?ex = Inr (bytes_of ''{"x":8}'')\<close>
    by (simp only: Marshal_x)
  from exx have ne: "?ex \<noteq> Map.empty"
    by (metis option.distinct(1))
  from C2_dynamic_field[OF NewRowParser_meta meta_schema_dynamic vx, of example_lib
      "[''id'', ''vector'']"] Parse_record_x ne mx
  have \<open>[100 \<mapsto> V_int64 1, 101 \<mapsto> V_bytes [255], 102 \<mapsto> V_bytes (bytes_of ''{"x":8}'')]
          (FieldID meta_field) = Some (V_bytes (bytes_of ''{"x":8}''))\<close>
    by auto
  with Parse_record_x
  have 2: \<open>\<exists>row. Parse example_lib meta_parser [''id'', ''vector'', ''x''] [''id'', ''vector'']
         (AnyMap record_x) = Inr row
       \<and> row 102 = Some (V_bytes (bytes_of ''{"x":8}''))\<close>
    by (simp only: f) blast
  have ed: "record_declared |` (- Name ` set (Fields meta_schema)) = Map.empty"
    by (rule ext) (simp add: meta_schema_names record_declared_def restrict_map_def)
  from C2_dynamic_field[OF NewRowParser_meta meta_schema_dynamic vd, of example_lib
      "[''id'', ''vector'']"] Parse_record_declared ed
  have "[100 \<mapsto> V_int64 1, 101 \<mapsto> V_bytes [255], 102 \<mapsto> V_string ''{}'']
          (FieldID meta_field) = Some (V_string ''{}'')"
    by auto
  with Parse_record_declared
  have 3: "\<exists>row. Parse example_lib meta_parser [''id'', ''vector''] [''id'', ''vector'']
         (AnyMap record_declared) = Inr row
       \<and> row 102 = Some (V_string ''{}'')"
    by (simp only: f) blast
  from NewRowParser_meta meta_schema_dynamic f vm rm 1 vx mx 2 vd ed 3
  show ?thesis by blast
qed

section \<open>The order of visit\<close>












end
